theory Spec2Isabelle
  imports Main "HOL-Library.Sublist"
begin

section \<open>Status codes\<close>

text \<open>
  The enum \<open>OLAPStatus\<close> is declared outside the two source files. The members the
  two files name are constructors of their own; any other member a collaborator may
  hand back is \<open>OLAP_ERR_OTHER n\<close>.
\<close>

datatype OLAPStatus =
    OLAP_SUCCESS
  | OLAP_ERR_INPUT_PARAMETER_ERROR
  | OLAP_ERR_TABLE_NOT_FOUND
  | OLAP_ERR_CE_CMD_PARAMS_ERROR
  | OLAP_ERR_VERSION_NOT_EXIST
  | OLAP_ERR_MALLOC_ERROR
  | OLAP_ERR_OTHER nat

section \<open>tablet\_schema.cpp\<close>

text \<open>
  \<open>ColumnPB\<close> and \<open>TabletSchemaPB\<close> are protobuf messages: an optional field is an
  \<open>option\<close> (\<open>has_x()\<close> is \<open>x \<noteq> None\<close>). The field type enum and
  \<open>FieldInfo::get_field_type_by_string\<close> live outside the source, so the field type is a
  type parameter \<open>'ft\<close> and the conversion a function argument. Counters are
  \<open>size_t\<close> in C++; a column list never reaches \<open>2 ^ 64\<close> entries, so they are \<open>nat\<close>.
\<close>

record ColumnPB =
  pb_unique_id :: int
  pb_name :: string
  pb_type :: string
  pb_is_key :: bool
  pb_is_nullable :: bool
  pb_default_value :: "string option"
  pb_precision :: "int option"
  pb_frac :: "int option"
  pb_length :: int
  pb_is_bf_column :: bool
  pb_referenced_column_id :: "int option"

record 'ft TabletColumn =
  col_unique_id :: int
  col_name :: string
  col_type :: 'ft
  col_is_key :: bool
  col_is_nullable :: bool
  col_has_default_value :: bool
  col_default_value :: string
  col_is_decimal :: bool
  col_precision :: int
  col_frac :: int
  col_length :: int
  col_index_length :: int
  col_is_bf_column :: bool
  col_has_referenced_column :: bool
  col_referenced_column_id :: int

text \<open>
  \<open>TabletColumn::init_from_pb\<close>. The argument \<open>c\<close> is the column object as its
  default constructor left it; members the function does not assign keep that value.
  As in the source, \<open>has_frac()\<close> stores \<open>frac()\<close> into \<open>_precision\<close>.
\<close>

definition TabletColumn_init_from_pb ::
  "(string \<Rightarrow> 'ft) \<Rightarrow> ColumnPB \<Rightarrow> 'ft TabletColumn \<Rightarrow> OLAPStatus \<times> 'ft TabletColumn" where
  "TabletColumn_init_from_pb get_field_type_by_string column c =
    (let c1 = c\<lparr> col_unique_id := pb_unique_id column,
                  col_name := pb_name column,
                  col_type := get_field_type_by_string (pb_type column),
                  col_is_key := pb_is_key column,
                  col_is_nullable := pb_is_nullable column,
                  col_has_default_value := (pb_default_value column \<noteq> None) \<rparr>;
         c2 = (case pb_default_value column of
                 Some d \<Rightarrow> c1\<lparr> col_default_value := d \<rparr>
               | None \<Rightarrow> c1);
         c3 = (case pb_precision column of
                 Some p \<Rightarrow> c2\<lparr> col_is_decimal := True, col_precision := p \<rparr>
               | None \<Rightarrow> c2);
         c4 = (case pb_frac column of
                 Some f \<Rightarrow> c3\<lparr> col_precision := f \<rparr>
               | None \<Rightarrow> c3);
         c5 = c4\<lparr> col_length := pb_length column,
                   col_index_length := pb_length column,
                   col_is_bf_column := pb_is_bf_column column,
                   col_has_referenced_column := (pb_referenced_column_id column \<noteq> None) \<rparr>;
         c6 = (case pb_referenced_column_id column of
                 Some r \<Rightarrow> c5\<lparr> col_referenced_column_id := r \<rparr>
               | None \<Rightarrow> c5)
     in (OLAP_SUCCESS, c6))"

record ('kt, 'ck, 'fp) TabletSchemaPB =
  pb_column :: "ColumnPB list"
  pb_num_short_key_columns :: nat
  pb_num_rows_per_row_block :: nat
  pb_keys_type :: 'kt
  pb_compress_kind :: 'ck
  pb_next_column_unique_id :: nat
  pb_bf_fpp :: "'fp option"

record ('ft, 'kt, 'ck, 'fp) TabletSchema =
  cols :: "'ft TabletColumn list"
  num_columns :: nat
  num_key_columns :: nat
  num_null_columns :: nat
  num_short_key_columns :: nat
  num_rows_per_row_block :: nat
  keys_type :: 'kt
  compress_kind :: 'ck
  next_column_unique_id :: nat
  bf_fpp :: 'fp

text \<open>
  The constructor \<open>TabletSchema::TabletSchema()\<close> zeroes four counters; \<open>_cols\<close> is a
  default-constructed, hence empty, vector. The other members are whatever the raw
  object \<open>s0\<close> held.
\<close>

definition TabletSchema_new ::
  "('ft, 'kt, 'ck, 'fp) TabletSchema \<Rightarrow> ('ft, 'kt, 'ck, 'fp) TabletSchema" where
  "TabletSchema_new s0 =
     s0\<lparr> cols := [], num_columns := 0, num_key_columns := 0,
         num_null_columns := 0, num_short_key_columns := 0 \<rparr>"

text \<open>
  The body of the range-for in \<open>TabletSchema::init_from_pb\<close>: one column is converted
  (starting from the default-constructed column \<open>c0\<close>), pushed, and counted.
\<close>

definition add_column ::
  "(string \<Rightarrow> 'ft) \<Rightarrow> 'ft TabletColumn \<Rightarrow> ColumnPB \<Rightarrow>
   ('ft, 'kt, 'ck, 'fp) TabletSchema \<Rightarrow> ('ft, 'kt, 'ck, 'fp) TabletSchema" where
  "add_column gft c0 column_pb s =
    (let column = snd (TabletColumn_init_from_pb gft column_pb c0);
         s1 = s\<lparr> cols := cols s @ [column], num_columns := num_columns s + 1 \<rparr>;
         s2 = (if col_is_key column
               then s1\<lparr> num_key_columns := num_key_columns s1 + 1 \<rparr> else s1);
         s3 = (if col_is_nullable column
               then s2\<lparr> num_null_columns := num_null_columns s2 + 1 \<rparr> else s2)
     in s3)"

fun add_columns ::
  "(string \<Rightarrow> 'ft) \<Rightarrow> 'ft TabletColumn \<Rightarrow> ColumnPB list \<Rightarrow>
   ('ft, 'kt, 'ck, 'fp) TabletSchema \<Rightarrow> ('ft, 'kt, 'ck, 'fp) TabletSchema" where
  "add_columns gft c0 [] s = s"
| "add_columns gft c0 (column_pb # rest) s =
     add_columns gft c0 rest (add_column gft c0 column_pb s)"

text \<open>
  \<open>TabletSchema::init_from_pb\<close>; \<open>default_fpp\<close> is the constant
  \<open>BLOOM_FILTER_DEFAULT_FPP\<close>, defined outside the source.
\<close>

definition TabletSchema_init_from_pb ::
  "(string \<Rightarrow> 'ft) \<Rightarrow> 'ft TabletColumn \<Rightarrow> 'fp \<Rightarrow> ('kt, 'ck, 'fp) TabletSchemaPB \<Rightarrow>
   ('ft, 'kt, 'ck, 'fp) TabletSchema \<Rightarrow> OLAPStatus \<times> ('ft, 'kt, 'ck, 'fp) TabletSchema" where
  "TabletSchema_init_from_pb gft c0 default_fpp schema s =
    (let s1 = add_columns gft c0 (pb_column schema) s;
         s2 = s1\<lparr> num_short_key_columns := pb_num_short_key_columns schema,
                   num_rows_per_row_block := pb_num_rows_per_row_block schema,
                   keys_type := pb_keys_type schema,
                   compress_kind := pb_compress_kind schema,
                   next_column_unique_id := pb_next_column_unique_id schema \<rparr>;
         s3 = (case pb_bf_fpp schema of
                 Some f \<Rightarrow> s2\<lparr> bf_fpp := f \<rparr>
               | None \<Rightarrow> s2\<lparr> bf_fpp := default_fpp \<rparr>)
     in (OLAP_SUCCESS, s3))"

text \<open>The three counters agree with the column list.\<close>

definition counters_consistent :: "('ft, 'kt, 'ck, 'fp) TabletSchema \<Rightarrow> bool" where
  "counters_consistent s \<longleftrightarrow>
     num_columns s = length (cols s) \<and>
     num_key_columns s = length (filter col_is_key (cols s)) \<and>
     num_null_columns s = length (filter col_is_nullable (cols s))"

section \<open>snapshot\_manager.cpp: data model\<close>

text \<open>
  The classes the snapshot manager talks to (\<open>Rowset\<close>, \<open>RowsetMeta\<close>,
  \<open>TabletMeta\<close>, \<open>Tablet\<close>, \<open>DataDir\<close>, \<open>TabletManager\<close>,
  \<open>StorageEngine\<close>, the thrift request) are declared outside the source file. Each is
  a record holding what the manager reads from it; a method whose body is elsewhere is a
  field holding what the call returns (status first, out-parameter second, as in C++).
  Version numbers and hashes are integers; the request and the rowsets carry them as
  64-bit values, which the manager compares and copies without arithmetic. The one place
  where the source changes a value is the \<open>int32_t\<close> local \<open>version\<close> of
  \<open>_create_snapshot_files\<close>: the narrowing is \<open>to_int32\<close> below.
\<close>

text \<open>
  The conversion of a 64-bit value to \<open>int32_t\<close>: the value modulo \<open>2 ^ 32\<close>, read as
  two's complement. \<open>in_int32\<close> holds of the values the conversion leaves alone.
\<close>

definition to_int32 :: "int \<Rightarrow> int" where
  "to_int32 x = (x + 2147483648) mod 4294967296 - 2147483648"

definition in_int32 :: "int \<Rightarrow> bool" where
  "in_int32 x \<longleftrightarrow> - 2147483648 \<le> x \<and> x < 2147483648"

record RowsetMeta =
  rsm_start_version :: int
  rsm_end_version :: int
  rsm_version_hash :: int

text \<open>
  A rowset: its meta, the names of its data and index files, and how its own
  \<open>make_snapshot\<close> behaves: \<open>None\<close> links every file, \<open>Some (n, e)\<close> links the
  first \<open>n\<close> files and then reports \<open>e\<close>.
\<close>

record Rowset =
  rowset_meta :: RowsetMeta
  rs_files :: "string list"
  rs_link_failure :: "(nat \<times> OLAPStatus) option"

definition start_version :: "Rowset \<Rightarrow> int" where
  "start_version rs = rsm_start_version (rowset_meta rs)"

definition end_version :: "Rowset \<Rightarrow> int" where
  "end_version rs = rsm_end_version (rowset_meta rs)"

definition version_hash :: "Rowset \<Rightarrow> int" where
  "version_hash rs = rsm_version_hash (rowset_meta rs)"

record TabletMeta =
  tm_tablet_id :: int
  tm_schema_hash :: int
  rs_metas :: "RowsetMeta list"

text \<open>
  The file system: a finite list of entries, path to node. A header file holds the
  \<open>TabletMeta\<close> saved into it, a hard link names the rowset file it links to. Paths are
  the strings the manager builds; the model keys entries by these strings, which is what
  the operating system does for absolute paths without symbolic links and dot segments.
\<close>

datatype node = Dir | HeaderFile TabletMeta | LinkedFile string

type_synonym filesystem = "(string \<times> node) list"

record DataDir =
  dd_path :: string
  get_header :: "int \<Rightarrow> int \<Rightarrow> OLAPStatus \<times> TabletMeta"

text \<open>
  A tablet. \<open>tablet_meta\<close> is the live in-memory header; \<open>get_header\<close> of its
  \<open>data_dir\<close> is \<open>TabletMetaManager::get_header\<close>, the load from the persisted
  metadata store. \<open>load\<close> is the status of \<open>Tablet::load\<close>.
\<close>

record Tablet =
  tablet_id :: int
  schema_hash :: int
  storage_root_path_name :: string
  data_dir :: DataDir
  tablet_meta :: TabletMeta
  rowset_with_max_version :: "Rowset option"
  capture_consistent_rowsets :: "int \<times> int \<Rightarrow> OLAPStatus \<times> Rowset list"
  get_rowset_by_version :: "int \<times> int \<Rightarrow> Rowset option"
  load :: OLAPStatus

text \<open>The thrift request: an optional field is its \<open>__isset\<close> flag and its value.\<close>

record TSnapshotRequest =
  req_tablet_id :: int
  req_schema_hash :: int
  isset_version :: bool
  req_version :: int
  req_version_hash :: int
  isset_missing_version :: bool
  req_missing_version :: "int list"
  isset_allow_incremental_clone :: bool
  allow_incremental_clone :: bool

record TPushReq =
  push_tablet_id :: int
  push_schema_hash :: int
  push_version :: int
  push_version_hash :: int

text \<open>
  What the surroundings answer during one call: \<open>boost::filesystem::canonical\<close>
  (applied only to directories that exist: a registered store root, the directory just
  created), \<open>gen_timestamp_string\<close>, \<open>TabletManager::get_tablet\<close>,
  \<open>StorageEngine::get_stores\<close>, whether the two \<open>new(nothrow) TabletMeta\<close> succeed,
  the status of \<open>TabletMeta::save\<close> for a path, and
  \<open>Tablet::create_from_tablet_meta\<close> (\<open>None\<close> is the null pointer).
\<close>

record env =
  canonical :: "string \<Rightarrow> string"
  gen_timestamp_string :: "OLAPStatus \<times> string"
  get_tablet :: "int \<Rightarrow> int \<Rightarrow> Tablet option"
  get_stores :: "DataDir list"
  new_TabletMeta_ok :: bool
  new_TabletMeta_ok_delta :: bool
  save_status :: "string \<Rightarrow> OLAPStatus"
  create_from_tablet_meta :: "TabletMeta \<Rightarrow> Tablet option"

text \<open>
  Modelled from the spec: the declaration of the member \<open>_snapshot_base_id\<close> is in
  the header file, outside the source; the spec calls it a strictly increasing in-process
  counter, so it is a natural number. The record is the state a call changes: the file
  system, this counter, and the number of read locks held on the tablet header.
\<close>

record world =
  fs :: filesystem
  snapshot_base_id :: nat
  header_rdlocks :: nat

section \<open>Strings and paths\<close>

text \<open>
  Modelled from the spec: the constant \<open>SNAPSHOT_PREFIX\<close> is defined outside the
  source. The layout \<open><store_root>/snapshot/<timestamp>.<sequence>\<close> and the separator
  the source writes after the prefix give its value.
\<close>

definition SNAPSHOT_PREFIX :: string where
  "SNAPSHOT_PREFIX = ''/snapshot''"

text \<open>Decimal output of \<open>operator<<\<close> for unsigned and signed integers.\<close>

definition digit_char :: "nat \<Rightarrow> char" where
  "digit_char d = ''0123456789'' ! d"

fun string_of_nat :: "nat \<Rightarrow> string" where
  "string_of_nat n =
     (if n < 10 then [digit_char n] else string_of_nat (n div 10) @ [digit_char (n mod 10)])"

declare string_of_nat.simps [simp del]

definition string_of_int :: "int \<Rightarrow> string" where
  "string_of_int i =
     (if i < 0 then CHR ''-'' # string_of_nat (nat (- i)) else string_of_nat (nat i))"

text \<open>
  \<open>s.compare(pos, len, str) == 0\<close> of \<open>std::string\<close>: the substring of \<open>s\<close> from
  \<open>pos\<close> of at most \<open>len\<close> characters equals \<open>str\<close>. \<open>None\<close> is the
  \<open>std::out_of_range\<close> exception for \<open>pos > s.size()\<close>.
\<close>

definition compare_eq0 :: "string \<Rightarrow> nat \<Rightarrow> nat \<Rightarrow> string \<Rightarrow> bool option" where
  "compare_eq0 s pos len str =
     (if pos > length s then None else Some (take len (drop pos s) = str))"

text \<open>\<open>under p q\<close>: the path \<open>q\<close> is \<open>p\<close> itself or lies in the tree below \<open>p\<close>.\<close>

definition under :: "string \<Rightarrow> string \<Rightarrow> bool" where
  "under p q \<longleftrightarrow> q = p \<or> prefix (p @ ''/'') q"

section \<open>File system helpers\<close>

text \<open>
  Modelled from the spec: \<open>check_dir_existed\<close> is a utility defined outside the
  source. It tells whether something exists at the path.
\<close>

definition check_dir_existed :: "string \<Rightarrow> filesystem \<Rightarrow> bool" where
  "check_dir_existed p f \<longleftrightarrow> map_of f p \<noteq> None"

text \<open>
  Modelled from the spec: \<open>remove_all_dir\<close> is a utility defined outside the source.
  It removes the path and the whole tree below it.
\<close>

definition remove_all_dir :: "string \<Rightarrow> filesystem \<Rightarrow> filesystem" where
  "remove_all_dir p f = filter (\<lambda>(q, n). \<not> under p q) f"

text \<open>The proper ancestors of a path: its prefixes that end before a separator.\<close>

definition ancestors :: "string \<Rightarrow> string list" where
  "ancestors p = map (\<lambda>i. take i p) (filter (\<lambda>i. p ! i = CHR ''/'') [1..<length p])"

definition mkdir :: "string \<Rightarrow> filesystem \<Rightarrow> filesystem" where
  "mkdir p f = (if map_of f p = None then f @ [(p, Dir)] else f)"

text \<open>
  Modelled from the spec: \<open>create_dirs\<close> is a utility defined outside the source. It
  creates the directory and every ancestor that is missing.
\<close>

definition create_dirs :: "string \<Rightarrow> filesystem \<Rightarrow> filesystem" where
  "create_dirs p f = fold mkdir (ancestors p @ [p]) f"

text \<open>
  Modelled from the spec: \<open>remove_dir\<close> is a utility defined outside the source, and
  the spec is silent about it; it is taken as the removal of an empty directory, which
  leaves files and non-empty directories alone.
\<close>

definition remove_dir :: "string \<Rightarrow> filesystem \<Rightarrow> filesystem" where
  "remove_dir p f =
     (if map_of f p = Some Dir \<and> list_all (\<lambda>(q, n). \<not> prefix (p @ ''/'') q) f
      then filter (\<lambda>(q, n). q \<noteq> p) f else f)"

text \<open>
  Modelled from the spec: \<open>TabletMeta::save\<close> is defined outside the source. It
  persists the header into the file at the path, or reports a failure and writes nothing.
\<close>

definition TabletMeta_save ::
  "env \<Rightarrow> TabletMeta \<Rightarrow> string \<Rightarrow> filesystem \<Rightarrow> OLAPStatus \<times> filesystem" where
  "TabletMeta_save e m p f =
     (if save_status e p \<noteq> OLAP_SUCCESS then (save_status e p, f)
      else (OLAP_SUCCESS, filter (\<lambda>(q, n). q \<noteq> p) f @ [(p, HeaderFile m)]))"

text \<open>
  Modelled from the spec: \<open>TabletMeta::revise_rs_metas\<close> is defined outside the
  source. It makes the rowset-meta list of the header equal to the list it is given.
\<close>

definition revise_rs_metas :: "RowsetMeta list \<Rightarrow> TabletMeta \<Rightarrow> TabletMeta" where
  "revise_rs_metas new_metas m = m\<lparr> rs_metas := new_metas \<rparr>"

text \<open>
  Modelled from the spec: the hard link a rowset makes for one of its files. It creates
  a new entry in the directory and never replaces an existing one.
\<close>

definition link_file :: "string \<Rightarrow> string \<Rightarrow> filesystem \<Rightarrow> filesystem" where
  "link_file dir name f =
     (if map_of f (dir @ ''/'' @ name) = None
      then f @ [(dir @ ''/'' @ name, LinkedFile name)] else f)"

text \<open>The status a rowset's \<open>make_snapshot\<close> reports, and the files it links.\<close>

definition link_status :: "Rowset \<Rightarrow> OLAPStatus" where
  "link_status rs = (case rs_link_failure rs of None \<Rightarrow> OLAP_SUCCESS | Some (n, e) \<Rightarrow> e)"

definition linked_files :: "Rowset \<Rightarrow> string list" where
  "linked_files rs =
     (case rs_link_failure rs of None \<Rightarrow> rs_files rs | Some (n, e) \<Rightarrow> take n (rs_files rs))"

text \<open>
  Modelled from the spec: \<open>Rowset::make_snapshot\<close> is defined outside the source. It
  hard-links files of the rowset into the directory and reports the files it linked.
\<close>

definition Rowset_make_snapshot ::
  "Rowset \<Rightarrow> string \<Rightarrow> filesystem \<Rightarrow> OLAPStatus \<times> string list \<times> filesystem" where
  "Rowset_make_snapshot rs dir f =
     (link_status rs, linked_files rs, fold (link_file dir) (linked_files rs) f)"

text \<open>The read lock on the tablet header.\<close>

definition obtain_header_rdlock :: "world \<Rightarrow> world" where
  "obtain_header_rdlock w = w\<lparr> header_rdlocks := header_rdlocks w + 1 \<rparr>"

definition release_header_lock :: "world \<Rightarrow> world" where
  "release_header_lock w = w\<lparr> header_rdlocks := header_rdlocks w - 1 \<rparr>"

section \<open>snapshot\_manager.cpp: the functions\<close>

text \<open>
  \<open>SnapshotManager::release_snapshot\<close>. The loop over the stores; \<open>None\<close> is an
  exception leaving the function.
\<close>

fun release_snapshot_loop ::
  "env \<Rightarrow> string \<Rightarrow> DataDir list \<Rightarrow> world \<Rightarrow> (OLAPStatus \<times> world) option" where
  "release_snapshot_loop e snapshot_path [] w = Some (OLAP_ERR_CE_CMD_PARAMS_ERROR, w)"
| "release_snapshot_loop e snapshot_path (store # rest) w =
     (let abs_path = canonical e (dd_path store) in
      case compare_eq0 snapshot_path 0 (length abs_path) abs_path of
        None \<Rightarrow> None
      | Some False \<Rightarrow> release_snapshot_loop e snapshot_path rest w
      | Some True \<Rightarrow>
          (case compare_eq0 snapshot_path (length abs_path)
                  (length SNAPSHOT_PREFIX) SNAPSHOT_PREFIX of
             None \<Rightarrow> None
           | Some False \<Rightarrow> release_snapshot_loop e snapshot_path rest w
           | Some True \<Rightarrow>
               Some (OLAP_SUCCESS, w\<lparr> fs := remove_all_dir snapshot_path (fs w) \<rparr>)))"

definition release_snapshot :: "env \<Rightarrow> string \<Rightarrow> world \<Rightarrow> (OLAPStatus \<times> world) option" where
  "release_snapshot e snapshot_path w = release_snapshot_loop e snapshot_path (get_stores e) w"

text \<open>
  \<open>SnapshotManager::_calc_snapshot_id_path\<close>. The out-parameter is \<open>None\<close> for a
  null pointer and \<open>Some s\<close> for a pointer to a string holding \<open>s\<close>; the function
  returns what it points to afterwards. The counter is read and incremented in one step
  (the source does both under \<open>_snapshot_mutex\<close>).
\<close>

definition calc_snapshot_id_path ::
  "env \<Rightarrow> Tablet \<Rightarrow> string option \<Rightarrow> world \<Rightarrow> OLAPStatus \<times> string option \<times> world" where
  "calc_snapshot_id_path e tablet out_path w =
     (case out_path of
        None \<Rightarrow> (OLAP_ERR_INPUT_PARAMETER_ERROR, None, w)
      | Some old \<Rightarrow>
          (case gen_timestamp_string e of (res, time_str) \<Rightarrow>
             if res \<noteq> OLAP_SUCCESS then (res, Some old, w)
             else (OLAP_SUCCESS,
                   Some (storage_root_path_name tablet @ SNAPSHOT_PREFIX @ ''/'' @ time_str
                         @ ''.'' @ string_of_nat (snapshot_base_id w)),
                   w\<lparr> snapshot_base_id := snapshot_base_id w + 1 \<rparr>)))"

definition get_schema_hash_full_path :: "Tablet \<Rightarrow> string \<Rightarrow> string" where
  "get_schema_hash_full_path ref_tablet location =
     location @ ''/'' @ string_of_int (tablet_id ref_tablet)
              @ ''/'' @ string_of_int (schema_hash ref_tablet)"

definition get_header_full_path :: "Tablet \<Rightarrow> string \<Rightarrow> string" where
  "get_header_full_path ref_tablet schema_hash_path =
     schema_hash_path @ ''/'' @ string_of_int (tablet_id ref_tablet) @ ''.hdr''"

definition update_header_file_info :: "Rowset list \<Rightarrow> TabletMeta \<Rightarrow> TabletMeta" where
  "update_header_file_info consistent_rowsets tablet_meta' =
     revise_rs_metas (map rowset_meta consistent_rowsets) tablet_meta'"

text \<open>
  \<open>SnapshotManager::_link_index_and_data_files\<close>: \<open>RETURN_NOT_OK\<close> leaves at the
  first rowset whose \<open>make_snapshot\<close> does not report success.
\<close>

fun link_index_and_data_files ::
  "string \<Rightarrow> Tablet \<Rightarrow> Rowset list \<Rightarrow> filesystem \<Rightarrow> OLAPStatus \<times> filesystem" where
  "link_index_and_data_files schema_hash_path ref_tablet [] f = (OLAP_SUCCESS, f)"
| "link_index_and_data_files schema_hash_path ref_tablet (rs # rest) f =
     (case Rowset_make_snapshot rs schema_hash_path f of (s, success_files, f') \<Rightarrow>
        if s \<noteq> OLAP_SUCCESS then (s, f')
        else link_index_and_data_files schema_hash_path ref_tablet rest f')"

text \<open>
  \<open>SnapshotManager::_append_single_delta\<close>. \<open>None\<close> is the dereference of a null
  \<open>lastest_version\<close>. The push request is built and dropped: the call to the push
  handler is commented out in the source and \<open>res\<close> is set to \<open>OLAP_SUCCESS\<close>.
\<close>

definition append_single_delta :: "env \<Rightarrow> TSnapshotRequest \<Rightarrow> DataDir \<Rightarrow> OLAPStatus option" where
  "append_single_delta e request store =
     (if \<not> new_TabletMeta_ok_delta e then Some OLAP_ERR_MALLOC_ERROR
      else case get_header store (req_tablet_id request) (req_schema_hash request) of
        (res, new_tablet_meta) \<Rightarrow>
          if res \<noteq> OLAP_SUCCESS then Some res
          else case create_from_tablet_meta e new_tablet_meta of
            None \<Rightarrow> Some OLAP_ERR_INPUT_PARAMETER_ERROR
          | Some tablet \<Rightarrow>
              if load tablet \<noteq> OLAP_SUCCESS then Some (load tablet)
              else case rowset_with_max_version tablet of
                None \<Rightarrow> None
              | Some lastest_version \<Rightarrow>
                  if start_version lastest_version \<noteq> req_version request
                  then (let empty_push = \<lparr> push_tablet_id = req_tablet_id request,
                                           push_schema_hash = req_schema_hash request,
                                           push_version = req_version request + 1,
                                           push_version_hash = 0 \<rparr>;
                            res' = OLAP_SUCCESS
                        in if res' \<noteq> OLAP_SUCCESS then Some res' else Some res')
                  else Some (load tablet))"

text \<open>
  Lines 233 to 248 of \<open>_create_snapshot_files\<close>: the snapshot version and the check
  of an explicit version against the rowset with the maximum version. The comparisons
  are on the values as the rowset and the request hold them; the local \<open>version\<close> is an
  \<open>int32_t\<close>, so both assignments to it narrow.
\<close>

definition snapshot_version :: "Rowset \<Rightarrow> TSnapshotRequest \<Rightarrow> OLAPStatus \<times> int" where
  "snapshot_version lastest_version request =
     (let version = to_int32 (end_version lastest_version) in
      if isset_version request then
        (if end_version lastest_version < req_version request
            \<or> (start_version lastest_version = end_version lastest_version
                \<and> end_version lastest_version = req_version request
                \<and> version_hash lastest_version \<noteq> req_version_hash request)
         then (OLAP_ERR_INPUT_PARAMETER_ERROR, version)
         else (OLAP_SUCCESS, to_int32 (req_version request)))
      else (OLAP_SUCCESS, version))"

text \<open>
  Lines 293 to 311: the loop that looks for the rowset ending at the requested version
  and calls \<open>_append_single_delta\<close> when that rowset does not start there. A failure of
  the call is logged and stays in \<open>res\<close>.
\<close>

fun append_loop ::
  "env \<Rightarrow> TSnapshotRequest \<Rightarrow> DataDir \<Rightarrow> Rowset list \<Rightarrow> OLAPStatus option" where
  "append_loop e request store [] = Some OLAP_SUCCESS"
| "append_loop e request store (rs # rest) =
     (if end_version rs = req_version request
      then (if start_version rs \<noteq> req_version request
            then append_single_delta e request store
            else Some OLAP_SUCCESS)
      else append_loop e request store rest)"

text \<open>
  Lines 250 to 312 of \<open>_create_snapshot_files\<close>: what the block does once the
  snapshot version is fixed. The result is the status, whether the header lock is still
  held, and the state; \<open>None\<close> is the null dereference inside
  \<open>_append_single_delta\<close>.
\<close>

definition snapshot_at_version ::
  "env \<Rightarrow> Tablet \<Rightarrow> TSnapshotRequest \<Rightarrow> string \<Rightarrow> string \<Rightarrow> int \<Rightarrow> world \<Rightarrow>
   (OLAPStatus \<times> bool \<times> world) option" where
  "snapshot_at_version e ref_tablet request schema_full_path header_path version w =
     (case capture_consistent_rowsets ref_tablet (0, version) of
        (cres, consistent_rowsets) \<Rightarrow>
        if cres \<noteq> OLAP_SUCCESS then Some (cres, True, w)
        else if \<not> new_TabletMeta_ok e then Some (OLAP_ERR_MALLOC_ERROR, True, w)
        else case get_header (data_dir ref_tablet) (tablet_id ref_tablet)
                    (schema_hash ref_tablet) of
          (hres, loaded) \<Rightarrow>
          if hres \<noteq> OLAP_SUCCESS then Some (hres, True, w)
          else
            (let w1 = release_header_lock w;
                 new_tablet_meta = update_header_file_info consistent_rowsets loaded
             in case TabletMeta_save e new_tablet_meta header_path (fs w1) of
               (sres, f2) \<Rightarrow>
               if sres \<noteq> OLAP_SUCCESS then Some (sres, False, w1\<lparr> fs := f2 \<rparr>)
               else case link_index_and_data_files schema_full_path ref_tablet
                           consistent_rowsets f2 of
                 (lres, f3) \<Rightarrow>
                 if lres \<noteq> OLAP_SUCCESS then Some (lres, False, w1\<lparr> fs := f3 \<rparr>)
                 else if isset_version request
                 then (case append_loop e request (data_dir ref_tablet)
                              consistent_rowsets of
                         None \<Rightarrow> None
                       | Some ares \<Rightarrow> Some (ares, False, w1\<lparr> fs := f3 \<rparr>))
                 else Some (OLAP_SUCCESS, False, w1\<lparr> fs := f3 \<rparr>)))"

text \<open>The \<open>do { ... } while (0)\<close> block of \<open>_create_snapshot_files\<close>.\<close>

definition create_snapshot_body ::
  "env \<Rightarrow> Tablet \<Rightarrow> TSnapshotRequest \<Rightarrow> string \<Rightarrow> string \<Rightarrow> world \<Rightarrow>
   (OLAPStatus \<times> bool \<times> world) option" where
  "create_snapshot_body e ref_tablet request schema_full_path header_path w =
     (case rowset_with_max_version ref_tablet of
        None \<Rightarrow> Some (OLAP_ERR_VERSION_NOT_EXIST, True, w)
      | Some lastest_version \<Rightarrow>
        (case snapshot_version lastest_version request of (vres, version) \<Rightarrow>
         if vres \<noteq> OLAP_SUCCESS then Some (vres, True, w)
         else snapshot_at_version e ref_tablet request schema_full_path header_path
                version w))"

text \<open>
  Lines 205 to 215 (and 359 to 367): the stale schema-hash directory is removed, the
  directory is created.
\<close>

definition prepare_dir :: "string \<Rightarrow> filesystem \<Rightarrow> filesystem" where
  "prepare_dir schema_full_path f =
     create_dirs schema_full_path
       (if check_dir_existed schema_full_path f then remove_all_dir schema_full_path f else f)"

text \<open>Lines 322 to 329 (and 415 to 422): the snapshot path is deleted when it exists.\<close>

definition rollback :: "string \<Rightarrow> world \<Rightarrow> world" where
  "rollback snapshot_id_path w =
     (if check_dir_existed snapshot_id_path (fs w)
      then w\<lparr> fs := remove_all_dir snapshot_id_path (fs w) \<rparr> else w)"

text \<open>
  \<open>SnapshotManager::_create_snapshot_files\<close>. The result is the status, what
  \<open>snapshot_path\<close> points to afterwards, and the state.
\<close>

definition create_snapshot_files ::
  "env \<Rightarrow> Tablet \<Rightarrow> TSnapshotRequest \<Rightarrow> string option \<Rightarrow> world \<Rightarrow>
   (OLAPStatus \<times> string option \<times> world) option" where
  "create_snapshot_files e ref_tablet request snapshot_path w =
     (case snapshot_path of
        None \<Rightarrow> Some (OLAP_ERR_INPUT_PARAMETER_ERROR, None, w)
      | Some old \<Rightarrow>
        (case calc_snapshot_id_path e ref_tablet (Some []) w of (res, out, w1) \<Rightarrow>
         if res \<noteq> OLAP_SUCCESS then Some (res, Some old, w1)
         else
           (let snapshot_id_path = (case out of Some s \<Rightarrow> s | None \<Rightarrow> []);
                schema_full_path = get_schema_hash_full_path ref_tablet snapshot_id_path;
                header_path = get_header_full_path ref_tablet schema_full_path;
                w2 = w1\<lparr> fs := prepare_dir schema_full_path (fs w1) \<rparr>;
                snapshot_id = canonical e snapshot_id_path;
                w3 = obtain_header_rdlock w2
            in case create_snapshot_body e ref_tablet request schema_full_path header_path w3 of
              None \<Rightarrow> None
            | Some (res', header_locked, w4) \<Rightarrow>
                (let w5 = (if header_locked then release_header_lock w4 else w4)
                 in if res' \<noteq> OLAP_SUCCESS
                    then Some (res', Some old, rollback snapshot_id_path w5)
                    else Some (res', Some snapshot_id, w5)))))"

text \<open>
  Lines 389 to 409 of \<open>_create_incremental_snapshot_files\<close>: the loop over the missing
  versions.
\<close>

fun link_missing_versions ::
  "Tablet \<Rightarrow> string \<Rightarrow> int list \<Rightarrow> filesystem \<Rightarrow> OLAPStatus \<times> filesystem" where
  "link_missing_versions ref_tablet schema_full_path [] f = (OLAP_SUCCESS, f)"
| "link_missing_versions ref_tablet schema_full_path (missed_version # rest) f =
     (case get_rowset_by_version ref_tablet (missed_version, missed_version) of
        Some rowset \<Rightarrow>
          (case Rowset_make_snapshot rowset schema_full_path f of (res, success_files, f') \<Rightarrow>
             if res \<noteq> OLAP_SUCCESS then (res, f')
             else link_missing_versions ref_tablet schema_full_path rest f')
      | None \<Rightarrow> (OLAP_ERR_VERSION_NOT_EXIST, f))"

text \<open>The \<open>do { ... } while (0)\<close> block of \<open>_create_incremental_snapshot_files\<close>.\<close>

definition create_incremental_body ::
  "env \<Rightarrow> Tablet \<Rightarrow> TSnapshotRequest \<Rightarrow> string \<Rightarrow> filesystem \<Rightarrow> OLAPStatus \<times> filesystem" where
  "create_incremental_body e ref_tablet request schema_full_path f =
     (case get_header (data_dir ref_tablet) (tablet_id ref_tablet) (schema_hash ref_tablet) of
        (res, tablet_meta') \<Rightarrow>
        if res \<noteq> OLAP_SUCCESS then (res, f)
        else
          (let header_path = get_header_full_path ref_tablet schema_full_path
           in case TabletMeta_save e tablet_meta' header_path f of (sres, f1) \<Rightarrow>
              if sres \<noteq> OLAP_SUCCESS then (sres, remove_dir header_path f1)
              else link_missing_versions ref_tablet schema_full_path
                     (req_missing_version request) f1))"

text \<open>\<open>SnapshotManager::_create_incremental_snapshot_files\<close>.\<close>

definition create_incremental_snapshot_files ::
  "env \<Rightarrow> Tablet \<Rightarrow> TSnapshotRequest \<Rightarrow> string option \<Rightarrow> world \<Rightarrow>
   OLAPStatus \<times> string option \<times> world" where
  "create_incremental_snapshot_files e ref_tablet request snapshot_path w =
     (case snapshot_path of
        None \<Rightarrow> (OLAP_ERR_INPUT_PARAMETER_ERROR, None, w)
      | Some old \<Rightarrow>
        (case calc_snapshot_id_path e ref_tablet (Some []) w of (res, out, w1) \<Rightarrow>
         if res \<noteq> OLAP_SUCCESS then (res, Some old, w1)
         else
           (let snapshot_id_path = (case out of Some s \<Rightarrow> s | None \<Rightarrow> []);
                schema_full_path = get_schema_hash_full_path ref_tablet snapshot_id_path;
                w2 = w1\<lparr> fs := prepare_dir schema_full_path (fs w1) \<rparr>;
                snapshot_id = canonical e snapshot_id_path;
                w3 = obtain_header_rdlock w2
            in case create_incremental_body e ref_tablet request schema_full_path (fs w3) of
              (res', f4) \<Rightarrow>
                (let w5 = release_header_lock (w3\<lparr> fs := f4 \<rparr>)
                 in if res' \<noteq> OLAP_SUCCESS
                    then (res', Some old, rollback snapshot_id_path w5)
                    else (res', Some snapshot_id, w5)))))"

text \<open>
  \<open>SnapshotManager::make_snapshot\<close>. The request is returned too: the incremental
  branch sets its \<open>allow_incremental_clone\<close> field.
\<close>

definition make_snapshot ::
  "env \<Rightarrow> TSnapshotRequest \<Rightarrow> string option \<Rightarrow> world \<Rightarrow>
   (OLAPStatus \<times> string option \<times> TSnapshotRequest \<times> world) option" where
  "make_snapshot e request snapshot_path w =
     (case snapshot_path of
        None \<Rightarrow> Some (OLAP_ERR_INPUT_PARAMETER_ERROR, None, request, w)
      | Some old \<Rightarrow>
        (case get_tablet e (req_tablet_id request) (req_schema_hash request) of
           None \<Rightarrow> Some (OLAP_ERR_TABLE_NOT_FOUND, snapshot_path, request, w)
         | Some ref_tablet \<Rightarrow>
             if isset_missing_version request
             then (case create_incremental_snapshot_files e ref_tablet request snapshot_path w of
                     (res, out, w') \<Rightarrow>
                       Some (res, out,
                             request\<lparr> allow_incremental_clone := True,
                                      isset_allow_incremental_clone := True \<rparr>, w'))
             else (case create_snapshot_files e ref_tablet request snapshot_path w of
                     None \<Rightarrow> None
                   | Some (res, out, w') \<Rightarrow> Some (res, out, request, w'))))"

section \<open>A concrete tablet, store and environment\<close>

text \<open>
  One store rooted at \<open>/data\<close> on a machine without symbolic links (so \<open>canonical\<close>
  returns an absolute path without dot segments as it is), holding tablet 42 with schema
  hash 7. The tablet has a cumulative rowset \<open>[0, 10]\<close> and a singleton rowset
  \<open>[11, 11]\<close>; both are in the persisted header.
\<close>

definition rs_0_10 :: Rowset where
  "rs_0_10 = \<lparr> rowset_meta = \<lparr> rsm_start_version = 0, rsm_end_version = 10,
                                 rsm_version_hash = 5 \<rparr>,
               rs_files = [''a.dat'', ''a.idx''], rs_link_failure = None \<rparr>"

definition rs_11 :: Rowset where
  "rs_11 = \<lparr> rowset_meta = \<lparr> rsm_start_version = 11, rsm_end_version = 11,
                               rsm_version_hash = 9 \<rparr>,
             rs_files = [''b.dat''], rs_link_failure = None \<rparr>"

definition demo_meta :: TabletMeta where
  "demo_meta = \<lparr> tm_tablet_id = 42, tm_schema_hash = 7,
                 rs_metas = [rowset_meta rs_0_10, rowset_meta rs_11] \<rparr>"

definition demo_store :: DataDir where
  "demo_store = \<lparr> dd_path = ''/data'', get_header = (\<lambda>t s. (OLAP_SUCCESS, demo_meta)) \<rparr>"

definition demo_tablet :: Tablet where
  "demo_tablet =
     \<lparr> tablet_id = 42, schema_hash = 7, storage_root_path_name = ''/data'',
       data_dir = demo_store, tablet_meta = demo_meta,
       rowset_with_max_version = Some rs_11,
       capture_consistent_rowsets =
         (\<lambda>v. if v = (0, 10) then (OLAP_SUCCESS, [rs_0_10])
              else if v = (0, 11) then (OLAP_SUCCESS, [rs_0_10, rs_11])
              else (OLAP_ERR_OTHER 0, [])),
       get_rowset_by_version =
         (\<lambda>v. if v = (11, 11) then Some rs_11 else if v = (0, 10) then Some rs_0_10 else None),
       load = OLAP_SUCCESS \<rparr>"

definition demo_env :: env where
  "demo_env =
     \<lparr> canonical = (\<lambda>p. p),
       gen_timestamp_string = (OLAP_SUCCESS, ''20190801120000''),
       get_tablet = (\<lambda>t s. if t = 42 \<and> s = 7 then Some demo_tablet else None),
       get_stores = [demo_store],
       new_TabletMeta_ok = True,
       new_TabletMeta_ok_delta = True,
       save_status = (\<lambda>p. OLAP_SUCCESS),
       create_from_tablet_meta = (\<lambda>m. Some demo_tablet) \<rparr>"

definition demo_world :: world where
  "demo_world = \<lparr> fs = [(''/data'', Dir), (''/data/snapshot'', Dir)],
                  snapshot_base_id = 0, header_rdlocks = 0 \<rparr>"

definition full_request :: "int \<Rightarrow> int \<Rightarrow> TSnapshotRequest" where
  "full_request v h =
     \<lparr> req_tablet_id = 42, req_schema_hash = 7, isset_version = True, req_version = v,
       req_version_hash = h, isset_missing_version = False, req_missing_version = [],
       isset_allow_incremental_clone = False, allow_incremental_clone = False \<rparr>"

definition incremental_request :: "int list \<Rightarrow> TSnapshotRequest" where
  "incremental_request vs =
     \<lparr> req_tablet_id = 42, req_schema_hash = 7, isset_version = False, req_version = 0,
       req_version_hash = 0, isset_missing_version = True, req_missing_version = vs,
       isset_allow_incremental_clone = False, allow_incremental_clone = False \<rparr>"

text \<open>
  The same tablet with a second rowset whose \<open>make_snapshot\<close> links one of its two files
  and then fails, and the same tablet without any rowset.
\<close>

definition rs_11_bad :: Rowset where
  "rs_11_bad = \<lparr> rowset_meta = rowset_meta rs_11, rs_files = [''b.dat'', ''b.idx''],
                 rs_link_failure = Some (1, OLAP_ERR_OTHER 3) \<rparr>"

definition bad_link_tablet :: Tablet where
  "bad_link_tablet =
     demo_tablet\<lparr> rowset_with_max_version := Some rs_11_bad,
                  capture_consistent_rowsets := (\<lambda>v. (OLAP_SUCCESS, [rs_0_10, rs_11_bad])) \<rparr>"

definition empty_tablet :: Tablet where
  "empty_tablet =
     demo_tablet\<lparr> rowset_with_max_version := None,
                  capture_consistent_rowsets := (\<lambda>v. (OLAP_ERR_OTHER 0, [])),
                  get_rowset_by_version := (\<lambda>v. None) \<rparr>"

text \<open>A file system with a finished snapshot and a sibling directory of the snapshot root.\<close>

definition release_world :: world where
  "release_world =
     \<lparr> fs = [(''/data'', Dir), (''/data/snapshot'', Dir),
             (''/data/snapshot/20190801120000.0'', Dir),
             (''/data/snapshot_old'', Dir), (''/data/snapshot_old/keep.dat'', LinkedFile ''keep.dat'')],
       snapshot_base_id = 1, header_rdlocks = 0 \<rparr>"

text \<open>The environment in which the tablet manager finds the tablet without rowsets.\<close>

definition empty_env :: env where
  "empty_env = demo_env\<lparr> get_tablet := (\<lambda>t s. Some empty_tablet) \<rparr>"

text \<open>
  The environment in which \<open>Tablet::create_from_tablet_meta\<close> hands back the null
  pointer.
\<close>

definition null_tablet_env :: env where
  "null_tablet_env = demo_env\<lparr> create_from_tablet_meta := (\<lambda>m. None) \<rparr>"

section \<open>Notions the properties are stated with\<close>

text \<open>The path \<open>_calc_snapshot_id_path\<close> hands out in state \<open>w\<close>.\<close>

definition snapshot_id_path_of :: "env \<Rightarrow> Tablet \<Rightarrow> world \<Rightarrow> string" where
  "snapshot_id_path_of e tablet w =
     storage_root_path_name tablet @ SNAPSHOT_PREFIX @ ''/'' @ snd (gen_timestamp_string e)
       @ ''.'' @ string_of_nat (snapshot_base_id w)"

definition header_path_of :: "env \<Rightarrow> Tablet \<Rightarrow> world \<Rightarrow> string" where
  "header_path_of e tablet w =
     get_header_full_path tablet
       (get_schema_hash_full_path tablet (snapshot_id_path_of e tablet w))"

text \<open>Nothing is left of the tree at \<open>p\<close>.\<close>

definition absent :: "string \<Rightarrow> filesystem \<Rightarrow> bool" where
  "absent p f \<longleftrightarrow> list_all (\<lambda>(q, n). \<not> under p q) f"

text \<open>
  Successive allocations, each in the environment of its moment: the paths handed out
  by the calls that succeed.
\<close>

fun allocate_paths :: "(env \<times> Tablet) list \<Rightarrow> world \<Rightarrow> string list" where
  "allocate_paths [] w = []"
| "allocate_paths ((e, tablet) # rest) w =
     (case calc_snapshot_id_path e tablet (Some []) w of (res, out, w') \<Rightarrow>
        (case out of Some s \<Rightarrow> (if res = OLAP_SUCCESS then [s] else []) | None \<Rightarrow> [])
        @ allocate_paths rest w')"

text \<open>
  The steps of the full snapshot as the specification lists them (section 4.3, steps 3
  to 10), each with the status it reports by itself: no maximum version, the check of
  the requested version, the consistent cover, the fresh header (allocation and load),
  the save of the header, the link of each rowset of the cover in order, the single
  delta. \<open>None\<close> is a step that does not return.
\<close>

definition full_snapshot_steps ::
  "env \<Rightarrow> Tablet \<Rightarrow> TSnapshotRequest \<Rightarrow> string \<Rightarrow> OLAPStatus option list" where
  "full_snapshot_steps e t request header_path =
     (case rowset_with_max_version t of
        None \<Rightarrow> [Some OLAP_ERR_VERSION_NOT_EXIST]
      | Some l \<Rightarrow>
          [Some (fst (snapshot_version l request)),
           Some (fst (capture_consistent_rowsets t (0, snd (snapshot_version l request)))),
           Some (if new_TabletMeta_ok e then OLAP_SUCCESS else OLAP_ERR_MALLOC_ERROR),
           Some (fst (get_header (data_dir t) (tablet_id t) (schema_hash t))),
           Some (save_status e header_path)]
          @ map (\<lambda>rs. Some (link_status rs))
              (snd (capture_consistent_rowsets t (0, snd (snapshot_version l request))))
          @ (if isset_version request
             then [append_loop e request (data_dir t)
                     (snd (capture_consistent_rowsets t (0, snd (snapshot_version l request))))]
             else []))"

text \<open>
  The steps that follow the version check (steps 5 to 10) when the snapshot version is
  \<open>v\<close>, each with the status it reports by itself.
\<close>

definition steps_at_version ::
  "env \<Rightarrow> Tablet \<Rightarrow> TSnapshotRequest \<Rightarrow> string \<Rightarrow> int \<Rightarrow> OLAPStatus option list" where
  "steps_at_version e t request header_path v =
     [Some (fst (capture_consistent_rowsets t (0, v))),
      Some (if new_TabletMeta_ok e then OLAP_SUCCESS else OLAP_ERR_MALLOC_ERROR),
      Some (fst (get_header (data_dir t) (tablet_id t) (schema_hash t))),
      Some (save_status e header_path)]
     @ map (\<lambda>rs. Some (link_status rs)) (snd (capture_consistent_rowsets t (0, v)))
     @ (if isset_version request
        then [append_loop e request (data_dir t) (snd (capture_consistent_rowsets t (0, v)))]
        else [])"

text \<open>The status of the first step that does not report success.\<close>

fun first_failure :: "OLAPStatus option list \<Rightarrow> OLAPStatus option" where
  "first_failure [] = Some OLAP_SUCCESS"
| "first_failure (None # rest) = None"
| "first_failure (Some s # rest) = (if s \<noteq> OLAP_SUCCESS then Some s else first_failure rest)"

text \<open>
  The condition under which section 4.3, step 4 rejects an explicit version: it exceeds
  the maximum version, or the maximum-version rowset is a singleton at the requested
  version with another hash.
\<close>

definition invalid_snapshot_version :: "Rowset \<Rightarrow> TSnapshotRequest \<Rightarrow> bool" where
  "invalid_snapshot_version l request \<longleftrightarrow>
     req_version request > end_version l
     \<or> (start_version l = end_version l \<and> end_version l = req_version request
         \<and> version_hash l \<noteq> req_version_hash request)"

section \<open>Properties of the schema counters\<close>

lemma add_column_consistent:
  "counters_consistent s \<Longrightarrow> counters_consistent (add_column gft c0 p s)"
  by (simp add: counters_consistent_def add_column_def Let_def)

lemma add_columns_consistent:
  "counters_consistent s \<Longrightarrow> counters_consistent (add_columns gft c0 ps s)"
  by (induction ps arbitrary: s) (simp_all add: add_column_consistent)

lemma add_columns_cols:
  "length (cols (add_columns gft c0 ps s)) = length (cols s) + length ps"
  by (induction ps arbitrary: s) (simp_all add: add_column_def Let_def)

lemma TabletSchema_new_consistent: "counters_consistent (TabletSchema_new s0)"
  by (simp add: counters_consistent_def TabletSchema_new_def)

text \<open>
  Claim C10. After \<open>TabletSchema::init_from_pb\<close> on a freshly constructed
  \<open>TabletSchema\<close>, for every schema message: the call reports success, one column is
  stored per message column, \<open>_num_columns\<close> is the number of stored columns,
  \<open>_num_key_columns\<close> the number of stored columns with \<open>is_key\<close>, and
  \<open>_num_null_columns\<close> the number with \<open>is_nullable\<close>.
\<close>

theorem init_from_pb_counters:
  "fst (TabletSchema_init_from_pb gft c0 dfpp schema (TabletSchema_new s0)) = OLAP_SUCCESS \<and>
   length (cols (snd (TabletSchema_init_from_pb gft c0 dfpp schema (TabletSchema_new s0))))
     = length (pb_column schema) \<and>
   num_columns (snd (TabletSchema_init_from_pb gft c0 dfpp schema (TabletSchema_new s0)))
     = length (cols (snd (TabletSchema_init_from_pb gft c0 dfpp schema (TabletSchema_new s0)))) \<and>
   num_key_columns (snd (TabletSchema_init_from_pb gft c0 dfpp schema (TabletSchema_new s0)))
     = length (filter col_is_key
         (cols (snd (TabletSchema_init_from_pb gft c0 dfpp schema (TabletSchema_new s0))))) \<and>
   num_null_columns (snd (TabletSchema_init_from_pb gft c0 dfpp schema (TabletSchema_new s0)))
     = length (filter col_is_nullable
         (cols (snd (TabletSchema_init_from_pb gft c0 dfpp schema (TabletSchema_new s0)))))"
proof -
  let ?s1 = "add_columns gft c0 (pb_column schema) (TabletSchema_new s0)"
  have c: "counters_consistent ?s1"
    by (rule add_columns_consistent [OF TabletSchema_new_consistent])
  have l: "length (cols ?s1) = length (pb_column schema)"
    by (simp add: add_columns_cols TabletSchema_new_def)
  show ?thesis
    using c l
    by (simp add: TabletSchema_init_from_pb_def Let_def counters_consistent_def
             split: option.split)
qed

section \<open>File system facts\<close>

lemma absent_remove_all_dir: "absent p (remove_all_dir p f)"
  by (auto simp: absent_def remove_all_dir_def list_all_iff)

lemma map_of_drop_key:
  "map_of (filter (\<lambda>(k, v). k \<noteq> p) f) q = (if q = p then None else map_of f q)"
  by (induction f) auto

lemma mkdir_keeps: "map_of f q = Some x \<Longrightarrow> map_of (mkdir p f) q = Some x"
  by (simp add: mkdir_def map_add_def)

lemma mkdir_exists: "check_dir_existed p (mkdir p f)"
  by (auto simp: check_dir_existed_def mkdir_def map_add_def split: option.splits)

lemma fold_mkdir_keeps: "map_of f q = Some x \<Longrightarrow> map_of (fold mkdir ps f) q = Some x"
  by (induction ps arbitrary: f) (simp_all add: mkdir_keeps)

lemma fold_mkdir_exists: "q \<in> set ps \<Longrightarrow> check_dir_existed q (fold mkdir ps f)"
proof (induction ps arbitrary: f)
  case Nil
  then show ?case by simp
next
  case (Cons p ps)
  show ?case
  proof (cases "q = p")
    case True
    obtain x where "map_of (mkdir p f) p = Some x"
      using mkdir_exists [of p f] by (auto simp: check_dir_existed_def)
    then have "map_of (fold mkdir ps (mkdir p f)) p = Some x"
      by (rule fold_mkdir_keeps)
    with True show ?thesis by (simp add: check_dir_existed_def)
  next
    case False
    with Cons.prems have "q \<in> set ps" by simp
    then show ?thesis using Cons.IH by simp
  qed
qed

lemma ancestors_mem: "p \<noteq> [] \<Longrightarrow> p \<in> set (ancestors (p @ CHR ''/'' # rest))"
proof -
  assume ne: "p \<noteq> []"
  let ?P = "p @ CHR ''/'' # rest"
  have r: "1 \<le> length p \<and> length p < length ?P"
    using ne by (cases p) simp_all
  have c: "?P ! length p = CHR ''/''"
    by (simp add: nth_append)
  have i: "length p \<in> set (filter (\<lambda>i. ?P ! i = CHR ''/'') [1..<length ?P])"
    using r c by (simp del: length_append nth_append_length)
  have "take (length p) ?P = p" by simp
  then have "p = (\<lambda>i. take i ?P) (length p)" by simp
  then show ?thesis
    unfolding ancestors_def using i by (metis (no_types, lifting) image_eqI set_map)
qed

lemma prepare_dir_exists_parent:
  "p \<noteq> [] \<Longrightarrow> check_dir_existed p (prepare_dir (p @ CHR ''/'' # rest) f)"
  unfolding prepare_dir_def create_dirs_def
  by (rule fold_mkdir_exists) (simp add: ancestors_mem)

lemma save_keeps_existing:
  "check_dir_existed q f \<Longrightarrow> check_dir_existed q (snd (TabletMeta_save e m p f))"
  by (auto simp: check_dir_existed_def TabletMeta_save_def map_add_def map_of_drop_key
           split: option.splits)

lemma save_writes:
  "TabletMeta_save e m p f = (OLAP_SUCCESS, f') \<Longrightarrow> map_of f' p = Some (HeaderFile m)"
  by (auto simp: TabletMeta_save_def map_add_def map_of_drop_key split: if_splits)

lemma save_failure_unchanged:
  "fst (TabletMeta_save e m p f) \<noteq> OLAP_SUCCESS \<Longrightarrow> snd (TabletMeta_save e m p f) = f"
  by (auto simp: TabletMeta_save_def)

lemma save_fst: "fst (TabletMeta_save e m p f) = save_status e p"
  by (simp add: TabletMeta_save_def)

lemma link_file_keeps: "map_of f q = Some x \<Longrightarrow> map_of (link_file d n f) q = Some x"
  by (simp add: link_file_def map_add_def)

lemma fold_link_file_keeps:
  "map_of f q = Some x \<Longrightarrow> map_of (fold (link_file d) ns f) q = Some x"
  by (induction ns arbitrary: f) (simp_all add: link_file_keeps)

lemma Rowset_make_snapshot_keeps:
  "map_of f q = Some x \<Longrightarrow> map_of (snd (snd (Rowset_make_snapshot rs d f))) q = Some x"
  by (simp add: Rowset_make_snapshot_def fold_link_file_keeps)

lemma Rowset_make_snapshot_fst: "fst (Rowset_make_snapshot rs d f) = link_status rs"
  by (simp add: Rowset_make_snapshot_def)

lemma link_index_and_data_files_keeps:
  "map_of f q = Some x \<Longrightarrow> map_of (snd (link_index_and_data_files d t rss f)) q = Some x"
proof (induction rss arbitrary: f)
  case Nil
  then show ?case by simp
next
  case (Cons rs rss)
  have k: "map_of (snd (snd (Rowset_make_snapshot rs d f))) q = Some x"
    using Cons.prems by (rule Rowset_make_snapshot_keeps)
  show ?case
    using k Cons.IH [OF k] by (auto split: prod.splits)
qed

lemma link_index_and_data_files_status:
  "map_option fst (Some (link_index_and_data_files d t rss f))
     = first_failure (map (\<lambda>rs. Some (link_status rs)) rss)"
proof (induction rss arbitrary: f)
  case Nil
  then show ?case by simp
next
  case (Cons rs rss)
  show ?case
    using Cons.IH [of "snd (snd (Rowset_make_snapshot rs d f))"]
    by (simp add: Rowset_make_snapshot_def)
qed

lemma link_missing_versions_keeps:
  "map_of f q = Some x \<Longrightarrow> map_of (snd (link_missing_versions t d vs f)) q = Some x"
proof (induction vs arbitrary: f)
  case Nil
  then show ?case by simp
next
  case (Cons v vs)
  show ?case
  proof (cases "get_rowset_by_version t (v, v)")
    case None
    then show ?thesis using Cons.prems by simp
  next
    case (Some rs)
    have k: "map_of (snd (snd (Rowset_make_snapshot rs d f))) q = Some x"
      using Cons.prems by (rule Rowset_make_snapshot_keeps)
    show ?thesis
      using Some k Cons.IH [OF k] by (auto split: prod.splits)
  qed
qed

lemma remove_dir_keeps:
  "map_of f q = Some x \<Longrightarrow> q \<noteq> p \<Longrightarrow> map_of (remove_dir p f) q = Some x"
  by (simp add: remove_dir_def map_of_drop_key)

lemma rollback_absent:
  "check_dir_existed p (fs w) \<Longrightarrow> absent p (fs (rollback p w))"
  by (simp add: rollback_def absent_remove_all_dir)

section \<open>Facts about the full snapshot\<close>

lemma calc_snapshot_id_path_ok:
  "fst (gen_timestamp_string e) = OLAP_SUCCESS \<Longrightarrow>
   calc_snapshot_id_path e t (Some s) w =
     (OLAP_SUCCESS, Some (snapshot_id_path_of e t w),
      w\<lparr> snapshot_base_id := snapshot_base_id w + 1 \<rparr>)"
  by (cases "gen_timestamp_string e") (simp add: calc_snapshot_id_path_def snapshot_id_path_of_def)

lemma snapshot_id_path_of_nonempty: "snapshot_id_path_of e t w \<noteq> []"
  by (simp add: snapshot_id_path_of_def SNAPSHOT_PREFIX_def)

lemma schema_path_shape:
  "\<exists>rest. get_schema_hash_full_path t p = p @ CHR ''/'' # rest"
  by (simp add: get_schema_hash_full_path_def)

lemma prepare_dir_exists_snapshot_id_path:
  "p \<noteq> [] \<Longrightarrow> check_dir_existed p (prepare_dir (get_schema_hash_full_path t p) f)"
  using schema_path_shape [of t p] prepare_dir_exists_parent by auto

lemma first_failure_append:
  "first_failure (xs @ ys) =
     (if first_failure xs = Some OLAP_SUCCESS then first_failure ys else first_failure xs)"
  by (induction xs rule: first_failure.induct) simp_all

lemma link_status_first_failure:
  "first_failure (map (\<lambda>rs. Some (link_status rs)) rss)
     = Some (fst (link_index_and_data_files d t rss f))"
  using link_index_and_data_files_status [of d t rss f] by simp

lemma snapshot_at_version_unfold:
  "snapshot_at_version e t req sp hp v w =
     (let cres = fst (capture_consistent_rowsets t (0, v));
          rows = snd (capture_consistent_rowsets t (0, v));
          hres = fst (get_header (data_dir t) (tablet_id t) (schema_hash t));
          loaded = snd (get_header (data_dir t) (tablet_id t) (schema_hash t));
          w1 = release_header_lock w;
          f2 = snd (TabletMeta_save e (update_header_file_info rows loaded) hp (fs w1));
          lres = fst (link_index_and_data_files sp t rows f2);
          f3 = snd (link_index_and_data_files sp t rows f2)
      in if cres \<noteq> OLAP_SUCCESS then Some (cres, True, w)
         else if \<not> new_TabletMeta_ok e then Some (OLAP_ERR_MALLOC_ERROR, True, w)
         else if hres \<noteq> OLAP_SUCCESS then Some (hres, True, w)
         else if save_status e hp \<noteq> OLAP_SUCCESS
           then Some (save_status e hp, False, w1\<lparr> fs := f2 \<rparr>)
         else if lres \<noteq> OLAP_SUCCESS then Some (lres, False, w1\<lparr> fs := f3 \<rparr>)
         else if isset_version req
           then (case append_loop e req (data_dir t) rows of
                   None \<Rightarrow> None
                 | Some ares \<Rightarrow> Some (ares, False, w1\<lparr> fs := f3 \<rparr>))
         else Some (OLAP_SUCCESS, False, w1\<lparr> fs := f3 \<rparr>))"
  by (simp add: snapshot_at_version_def Let_def split_beta save_fst)

lemma snapshot_at_version_keeps:
  assumes "snapshot_at_version e t req sp hp v w = Some (res, hl, w')"
      and "check_dir_existed q (fs w)"
  shows "check_dir_existed q (fs w')"
proof -
  let ?rows = "snd (capture_consistent_rowsets t (0, v))"
  let ?loaded = "snd (get_header (data_dir t) (tablet_id t) (schema_hash t))"
  let ?f2 = "snd (TabletMeta_save e (update_header_file_info ?rows ?loaded) hp (fs w))"
  let ?f3 = "snd (link_index_and_data_files sp t ?rows ?f2)"
  have k2: "check_dir_existed q ?f2"
    using assms(2) by (rule save_keeps_existing)
  then obtain x where "map_of ?f2 q = Some x"
    by (auto simp: check_dir_existed_def)
  then have "map_of ?f3 q = Some x"
    by (rule link_index_and_data_files_keeps)
  then have k3: "check_dir_existed q ?f3"
    by (simp add: check_dir_existed_def)
  have "fs w' = fs w \<or> fs w' = ?f2 \<or> fs w' = ?f3"
    using assms(1) unfolding snapshot_at_version_unfold Let_def
    by (auto simp: release_header_lock_def split: if_splits option.splits)
  then show ?thesis
    using assms(2) k2 k3 by auto
qed

lemma create_snapshot_body_keeps:
  assumes "create_snapshot_body e t req sp hp w = Some (res, hl, w')"
      and "check_dir_existed q (fs w)"
  shows "check_dir_existed q (fs w')"
proof (cases "rowset_with_max_version t")
  case None
  then show ?thesis
    using assms by (simp add: create_snapshot_body_def)
next
  case (Some l)
  show ?thesis
  proof (cases "fst (snapshot_version l req) = OLAP_SUCCESS")
    case True
    then have "snapshot_at_version e t req sp hp (snd (snapshot_version l req)) w
                 = Some (res, hl, w')"
      using assms(1) Some by (simp add: create_snapshot_body_def split_beta)
    then show ?thesis
      using assms(2) by (rule snapshot_at_version_keeps)
  next
    case False
    then show ?thesis
      using assms Some by (simp add: create_snapshot_body_def split_beta)
  qed
qed

lemma snapshot_at_version_status:
  "map_option fst (snapshot_at_version e t req sp hp v w) =
     first_failure
       ([Some (fst (capture_consistent_rowsets t (0, v))),
         Some (if new_TabletMeta_ok e then OLAP_SUCCESS else OLAP_ERR_MALLOC_ERROR),
         Some (fst (get_header (data_dir t) (tablet_id t) (schema_hash t))),
         Some (save_status e hp)]
        @ map (\<lambda>rs. Some (link_status rs)) (snd (capture_consistent_rowsets t (0, v)))
        @ (if isset_version req
           then [append_loop e req (data_dir t) (snd (capture_consistent_rowsets t (0, v)))]
           else []))"
proof -
  let ?rows = "snd (capture_consistent_rowsets t (0, v))"
  let ?loaded = "snd (get_header (data_dir t) (tablet_id t) (schema_hash t))"
  let ?f2 = "snd (TabletMeta_save e (update_header_file_info ?rows ?loaded) hp
                    (fs (release_header_lock w)))"
  have lf: "first_failure (map (\<lambda>rs. Some (link_status rs)) ?rows)
              = Some (fst (link_index_and_data_files sp t ?rows ?f2))"
    by (rule link_status_first_failure)
  show ?thesis
    unfolding snapshot_at_version_unfold Let_def
    by (cases "append_loop e req (data_dir t) ?rows")
       (auto simp: first_failure_append lf)
qed

lemma create_snapshot_body_status:
  "map_option fst (create_snapshot_body e t req sp hp w)
     = first_failure (full_snapshot_steps e t req hp)"
proof (cases "rowset_with_max_version t")
  case None
  then show ?thesis
    by (simp add: create_snapshot_body_def full_snapshot_steps_def)
next
  case (Some l)
  obtain vres v where sv: "snapshot_version l req = (vres, v)"
    by (cases "snapshot_version l req")
  show ?thesis
    using Some sv snapshot_at_version_status [of e t req sp hp v w]
    by (simp add: create_snapshot_body_def full_snapshot_steps_def)
qed

lemma create_snapshot_files_unfold:
  assumes "fst (gen_timestamp_string e) = OLAP_SUCCESS"
  shows "create_snapshot_files e t req (Some old) w =
     (case create_snapshot_body e t req
             (get_schema_hash_full_path t (snapshot_id_path_of e t w))
             (header_path_of e t w)
             (obtain_header_rdlock
               (w\<lparr> snapshot_base_id := snapshot_base_id w + 1,
                    fs := prepare_dir (get_schema_hash_full_path t (snapshot_id_path_of e t w))
                            (fs w) \<rparr>)) of
        None \<Rightarrow> None
      | Some (res, header_locked, w4) \<Rightarrow>
          if res \<noteq> OLAP_SUCCESS
          then Some (res, Some old,
                     rollback (snapshot_id_path_of e t w)
                       (if header_locked then release_header_lock w4 else w4))
          else Some (res, Some (canonical e (snapshot_id_path_of e t w)),
                     if header_locked then release_header_lock w4 else w4))"
proof (cases "create_snapshot_body e t req
             (get_schema_hash_full_path t (snapshot_id_path_of e t w))
             (header_path_of e t w)
             (obtain_header_rdlock
               (w\<lparr> snapshot_base_id := snapshot_base_id w + 1,
                    fs := prepare_dir (get_schema_hash_full_path t (snapshot_id_path_of e t w))
                            (fs w) \<rparr>))")
  case None
  then show ?thesis
    by (simp add: create_snapshot_files_def calc_snapshot_id_path_ok [OF assms] Let_def
             header_path_of_def)
next
  case (Some r)
  then show ?thesis
    by (cases r)
       (simp add: create_snapshot_files_def calc_snapshot_id_path_ok [OF assms] Let_def
             header_path_of_def)
qed

lemma create_snapshot_files_status:
  assumes "fst (gen_timestamp_string e) = OLAP_SUCCESS"
  shows "map_option fst (create_snapshot_files e t req (Some old) w)
     = first_failure (full_snapshot_steps e t req (header_path_of e t w))"
proof -
  have "map_option fst (create_snapshot_files e t req (Some old) w)
      = map_option fst (create_snapshot_body e t req
             (get_schema_hash_full_path t (snapshot_id_path_of e t w))
             (header_path_of e t w)
             (obtain_header_rdlock
               (w\<lparr> snapshot_base_id := snapshot_base_id w + 1,
                    fs := prepare_dir (get_schema_hash_full_path t (snapshot_id_path_of e t w))
                            (fs w) \<rparr>)))"
    by (simp add: create_snapshot_files_unfold [OF assms] split: option.splits)
  then show ?thesis
    by (simp add: create_snapshot_body_status)
qed

lemma create_snapshot_files_outcome:
  assumes ts: "fst (gen_timestamp_string e) = OLAP_SUCCESS"
      and r: "create_snapshot_files e t req (Some old) w = Some (res, out, w')"
  shows "(res \<noteq> OLAP_SUCCESS \<longrightarrow> absent (snapshot_id_path_of e t w) (fs w') \<and> out = Some old)
       \<and> (res = OLAP_SUCCESS \<longrightarrow> out = Some (canonical e (snapshot_id_path_of e t w)))"
proof -
  let ?p = "snapshot_id_path_of e t w"
  let ?sp = "get_schema_hash_full_path t ?p"
  let ?w3 = "obtain_header_rdlock
               (w\<lparr> snapshot_base_id := snapshot_base_id w + 1, fs := prepare_dir ?sp (fs w) \<rparr>)"
  obtain res' hl w4 where
    b: "create_snapshot_body e t req ?sp (header_path_of e t w) ?w3 = Some (res', hl, w4)"
    using r by (auto simp: create_snapshot_files_unfold [OF ts] split: option.splits)
  have "check_dir_existed ?p (fs ?w3)"
    by (simp add: obtain_header_rdlock_def prepare_dir_exists_snapshot_id_path
                  snapshot_id_path_of_nonempty)
  then have "check_dir_existed ?p (fs w4)"
    using b create_snapshot_body_keeps by blast
  then have ex: "check_dir_existed ?p (fs (if hl then release_header_lock w4 else w4))"
    by (simp add: release_header_lock_def)
  show ?thesis
    using r b rollback_absent [OF ex]
    by (auto simp: create_snapshot_files_unfold [OF ts] split: if_splits)
qed

lemma snapshot_at_version_header:
  assumes "snapshot_at_version e t req sp hp v w = Some (OLAP_SUCCESS, hl, w')"
  shows "fst (capture_consistent_rowsets t (0, v)) = OLAP_SUCCESS
       \<and> fst (get_header (data_dir t) (tablet_id t) (schema_hash t)) = OLAP_SUCCESS
       \<and> map_of (fs w') hp =
           Some (HeaderFile (update_header_file_info
                   (snd (capture_consistent_rowsets t (0, v)))
                   (snd (get_header (data_dir t) (tablet_id t) (schema_hash t)))))"
proof -
  let ?rows = "snd (capture_consistent_rowsets t (0, v))"
  let ?loaded = "snd (get_header (data_dir t) (tablet_id t) (schema_hash t))"
  let ?m = "update_header_file_info ?rows ?loaded"
  let ?f1 = "fs (release_header_lock w)"
  let ?f2 = "snd (TabletMeta_save e ?m hp ?f1)"
  let ?f3 = "snd (link_index_and_data_files sp t ?rows ?f2)"
  have ok: "fst (capture_consistent_rowsets t (0, v)) = OLAP_SUCCESS
          \<and> fst (get_header (data_dir t) (tablet_id t) (schema_hash t)) = OLAP_SUCCESS
          \<and> save_status e hp = OLAP_SUCCESS \<and> fs w' = ?f3"
    using assms unfolding snapshot_at_version_unfold Let_def
    by (auto split: if_splits option.splits)
  then have "TabletMeta_save e ?m hp ?f1 = (OLAP_SUCCESS, ?f2)"
    using save_fst [of e ?m hp ?f1] by (metis prod.collapse)
  then have "map_of ?f2 hp = Some (HeaderFile ?m)"
    by (rule save_writes)
  then have "map_of ?f3 hp = Some (HeaderFile ?m)"
    by (rule link_index_and_data_files_keeps)
  with ok show ?thesis by simp
qed

lemma link_index_and_data_files_tablet:
  "link_index_and_data_files d t rss f = link_index_and_data_files d t' rss f"
  by (induction rss arbitrary: f) (simp_all split: prod.splits)

lemma schema_path_live:
  "get_schema_hash_full_path (t\<lparr> tablet_meta := m \<rparr>) p = get_schema_hash_full_path t p"
  by (simp add: get_schema_hash_full_path_def)

lemma snapshot_id_path_of_live:
  "snapshot_id_path_of e (t\<lparr> tablet_meta := m \<rparr>) w = snapshot_id_path_of e t w"
  by (simp add: snapshot_id_path_of_def)

lemma header_path_of_live:
  "header_path_of e (t\<lparr> tablet_meta := m \<rparr>) w = header_path_of e t w"
  by (simp add: header_path_of_def get_header_full_path_def schema_path_live
        snapshot_id_path_of_live)

lemma snapshot_at_version_live:
  "snapshot_at_version e (t\<lparr> tablet_meta := m \<rparr>) req sp hp v w
     = snapshot_at_version e t req sp hp v w"
  unfolding snapshot_at_version_unfold Let_def
  by (cases "append_loop e req (data_dir t) (snd (capture_consistent_rowsets t (0, v)))")
     (simp_all add: link_index_and_data_files_tablet [of sp "t\<lparr> tablet_meta := m \<rparr>" _ _ t]
           cong: if_cong)

lemma create_snapshot_body_live:
  "create_snapshot_body e (t\<lparr> tablet_meta := m \<rparr>) req sp hp w
     = create_snapshot_body e t req sp hp w"
  by (cases "rowset_with_max_version t")
     (simp_all add: create_snapshot_body_def split_beta snapshot_at_version_live)

lemma to_int32_id: "in_int32 x \<Longrightarrow> to_int32 x = x"
  by (simp add: in_int32_def to_int32_def)

lemma snapshot_version_unfold:
  "isset_version req \<Longrightarrow>
   snapshot_version l req =
     (if invalid_snapshot_version l req
      then (OLAP_ERR_INPUT_PARAMETER_ERROR, to_int32 (end_version l))
      else (OLAP_SUCCESS, to_int32 (req_version req)))"
  by (auto simp: snapshot_version_def invalid_snapshot_version_def Let_def)

lemma full_snapshot_steps_unfold:
  "rowset_with_max_version t = Some l \<Longrightarrow>
   full_snapshot_steps e t req hp =
     Some (fst (snapshot_version l req))
       # steps_at_version e t req hp (snd (snapshot_version l req))"
  by (simp add: full_snapshot_steps_def steps_at_version_def)

lemma demo_timestamp: "fst (gen_timestamp_string demo_env) = OLAP_SUCCESS"
  by (simp add: demo_env_def)

lemma demo_snapshot_id_path:
  "storage_root_path_name t = ''/data'' \<Longrightarrow>
   snapshot_id_path_of demo_env t demo_world = ''/data/snapshot/20190801120000.0''"
  by (simp add: snapshot_id_path_of_def demo_env_def demo_world_def
        SNAPSHOT_PREFIX_def digit_char_def string_of_nat.simps)

section \<open>Properties of the full snapshot\<close>

text \<open>
  Claim C2. Once the snapshot id path is allocated (the only step before the directory
  is created that can fail is the timestamp), a full-snapshot construction returns the
  status of the first step that does not report success, unchanged: no maximum version,
  the version check, the cover, the fresh header, the save of the header, the link of
  each rowset of the cover in turn, the single delta. Whenever the status it returns is
  not success, nothing is left of the tree at the snapshot id path and the output string
  is untouched; when it is success, the output is the canonical form of the snapshot id
  path.
\<close>

theorem full_snapshot_rollback:
  assumes "fst (gen_timestamp_string e) = OLAP_SUCCESS"
  shows "map_option fst (create_snapshot_files e t req (Some old) w)
           = first_failure (full_snapshot_steps e t req (header_path_of e t w))
       \<and> (\<forall>res out w'. create_snapshot_files e t req (Some old) w = Some (res, out, w') \<longrightarrow>
            (res \<noteq> OLAP_SUCCESS \<longrightarrow>
               absent (snapshot_id_path_of e t w) (fs w') \<and> out = Some old)
          \<and> (res = OLAP_SUCCESS \<longrightarrow> out = Some (canonical e (snapshot_id_path_of e t w))))"
  using create_snapshot_files_status [OF assms] create_snapshot_files_outcome [OF assms]
  by blast

text \<open>
  The second rowset of the cover links one file and fails with \<open>OLAP_ERR_OTHER 3\<close>
  after the first rowset was linked completely: the call returns that status and the
  snapshot directory is gone.
\<close>

theorem full_snapshot_rollback_witness:
  "fst (gen_timestamp_string demo_env) = OLAP_SUCCESS
   \<and> (\<exists>w'. create_snapshot_files demo_env bad_link_tablet (full_request 11 9)
               (Some ''old'') demo_world = Some (OLAP_ERR_OTHER 3, Some ''old'', w')
          \<and> absent ''/data/snapshot/20190801120000.0'' (fs w'))"
proof -
  let ?call = "create_snapshot_files demo_env bad_link_tablet (full_request 11 9)
                 (Some ''old'') demo_world"
  have steps: "first_failure (full_snapshot_steps demo_env bad_link_tablet (full_request 11 9)
                  (header_path_of demo_env bad_link_tablet demo_world))
               = Some (OLAP_ERR_OTHER 3)"
    by (simp add: full_snapshot_steps_def bad_link_tablet_def demo_tablet_def demo_env_def
          full_request_def snapshot_version_def start_version_def end_version_def
          version_hash_def rs_11_bad_def rs_11_def rs_0_10_def demo_store_def link_status_def
          to_int32_def)
  have p: "snapshot_id_path_of demo_env bad_link_tablet demo_world
             = ''/data/snapshot/20190801120000.0''"
    by (rule demo_snapshot_id_path) (simp add: bad_link_tablet_def demo_tablet_def)
  note inst = full_snapshot_rollback [OF demo_timestamp, of bad_link_tablet
               "full_request 11 9" "''old''" demo_world]
  from inst steps have "map_option fst ?call = Some (OLAP_ERR_OTHER 3)"
    by simp
  then obtain out w' where r: "?call = Some (OLAP_ERR_OTHER 3, out, w')"
    by (cases ?call) auto
  with inst p have "absent ''/data/snapshot/20190801120000.0'' (fs w') \<and> out = Some ''old''"
    by auto
  with r demo_timestamp show ?thesis
    by blast
qed

text \<open>
  Claim C3, as amended. For a request with an explicit version and a tablet whose rowset
  with the maximum version is \<open>l\<close>: the version check rejects the request exactly when
  the requested version exceeds the end version of \<open>l\<close>, or \<open>l\<close> is a singleton at the
  requested version with a version hash other than the requested one. A rejected request
  stops the block of \<open>_create_snapshot_files\<close> with
  \<open>OLAP_ERR_INPUT_PARAMETER_ERROR\<close>, and the call returns this status. A request that
  passes the check with a version in the \<open>int32_t\<close> range has exactly the requested
  version as the snapshot version: the block goes on as for that version, and the call
  returns the status of the first failing step among those that follow the check for
  that version. (The same status can come from such a later step, so the status alone
  does not tell that the check rejected; and nothing is said here of a version outside
  the \<open>int32_t\<close> range that passes the check.)
\<close>

theorem explicit_version_check:
  assumes "isset_version req" and "rowset_with_max_version t = Some l"
  shows "(fst (snapshot_version l req) = OLAP_ERR_INPUT_PARAMETER_ERROR
            \<longleftrightarrow> invalid_snapshot_version l req)
       \<and> (fst (snapshot_version l req) = OLAP_SUCCESS
            \<longleftrightarrow> \<not> invalid_snapshot_version l req)
       \<and> (invalid_snapshot_version l req \<longrightarrow>
            create_snapshot_body e t req sp hp w
              = Some (OLAP_ERR_INPUT_PARAMETER_ERROR, True, w)
          \<and> (fst (gen_timestamp_string e) = OLAP_SUCCESS \<longrightarrow>
               map_option fst (create_snapshot_files e t req (Some old) w0)
                 = Some OLAP_ERR_INPUT_PARAMETER_ERROR))
       \<and> (\<not> invalid_snapshot_version l req \<and> in_int32 (req_version req) \<longrightarrow>
            snapshot_version l req = (OLAP_SUCCESS, req_version req)
          \<and> create_snapshot_body e t req sp hp w
              = snapshot_at_version e t req sp hp (req_version req) w
          \<and> (fst (gen_timestamp_string e) = OLAP_SUCCESS \<longrightarrow>
               map_option fst (create_snapshot_files e t req (Some old) w0)
                 = first_failure (steps_at_version e t req (header_path_of e t w0)
                                    (req_version req))))"
proof -
  note sv = snapshot_version_unfold [OF assms(1), of l]
  note steps = full_snapshot_steps_unfold [OF assms(2), of e req]
  have a: "fst (snapshot_version l req) = OLAP_ERR_INPUT_PARAMETER_ERROR
             \<longleftrightarrow> invalid_snapshot_version l req"
    by (simp add: sv)
  have b: "fst (snapshot_version l req) = OLAP_SUCCESS \<longleftrightarrow> \<not> invalid_snapshot_version l req"
    by (simp add: sv)
  have c: "create_snapshot_body e t req sp hp w = Some (OLAP_ERR_INPUT_PARAMETER_ERROR, True, w)"
    if "invalid_snapshot_version l req"
    using that assms(2) by (simp add: create_snapshot_body_def sv)
  have d: "map_option fst (create_snapshot_files e t req (Some old) w0)
             = Some OLAP_ERR_INPUT_PARAMETER_ERROR"
    if "invalid_snapshot_version l req" and ts: "fst (gen_timestamp_string e) = OLAP_SUCCESS"
    using that(1) by (simp add: create_snapshot_files_status [OF ts] steps sv)
  have f: "snapshot_version l req = (OLAP_SUCCESS, req_version req)"
    if "\<not> invalid_snapshot_version l req" and "in_int32 (req_version req)"
    using that by (simp add: sv to_int32_id)
  have g: "create_snapshot_body e t req sp hp w
             = snapshot_at_version e t req sp hp (req_version req) w"
    if "\<not> invalid_snapshot_version l req" and "in_int32 (req_version req)"
    using assms(2) by (simp add: create_snapshot_body_def f [OF that])
  have h: "map_option fst (create_snapshot_files e t req (Some old) w0)
             = first_failure (steps_at_version e t req (header_path_of e t w0)
                                (req_version req))"
    if "\<not> invalid_snapshot_version l req" and "in_int32 (req_version req)"
      and ts: "fst (gen_timestamp_string e) = OLAP_SUCCESS"
    by (simp add: create_snapshot_files_status [OF ts] steps f [OF that(1) that(2)])
  show ?thesis
    using a b c d f g h by blast
qed

text \<open>
  On the tablet whose maximum version is the singleton \<open>[11, 11]\<close> with hash 9: version
  11 with hash 8 and version 12 are rejected and the call returns the status of the
  check; version 11 with hash 9 and version 10 pass, are the snapshot versions, and the
  call succeeds for version 10.
\<close>

theorem explicit_version_check_witness:
  "isset_version (full_request 11 8) \<and> rowset_with_max_version demo_tablet = Some rs_11
   \<and> fst (gen_timestamp_string demo_env) = OLAP_SUCCESS
   \<and> invalid_snapshot_version rs_11 (full_request 11 8)
   \<and> invalid_snapshot_version rs_11 (full_request 12 0)
   \<and> \<not> invalid_snapshot_version rs_11 (full_request 11 9)
   \<and> \<not> invalid_snapshot_version rs_11 (full_request 10 5)
   \<and> in_int32 (req_version (full_request 11 9))
   \<and> in_int32 (req_version (full_request 10 5))
   \<and> map_option fst (create_snapshot_files demo_env demo_tablet (full_request 11 8)
         (Some ''old'') demo_world) = Some OLAP_ERR_INPUT_PARAMETER_ERROR
   \<and> map_option fst (create_snapshot_files demo_env demo_tablet (full_request 12 0)
         (Some ''old'') demo_world) = Some OLAP_ERR_INPUT_PARAMETER_ERROR
   \<and> snapshot_version rs_11 (full_request 11 9) = (OLAP_SUCCESS, 11)
   \<and> snapshot_version rs_11 (full_request 10 5) = (OLAP_SUCCESS, 10)
   \<and> map_option fst (create_snapshot_files demo_env demo_tablet (full_request 10 5)
         (Some ''old'') demo_world) = Some OLAP_SUCCESS"
proof -
  have i: "isset_version (full_request v h)" for v h
    by (simp add: full_request_def)
  have m: "rowset_with_max_version demo_tablet = Some rs_11"
    by (simp add: demo_tablet_def)
  have bad1: "invalid_snapshot_version rs_11 (full_request 11 8)"
    by (simp add: invalid_snapshot_version_def full_request_def rs_11_def
          start_version_def end_version_def version_hash_def)
  have bad2: "invalid_snapshot_version rs_11 (full_request 12 0)"
    by (simp add: invalid_snapshot_version_def full_request_def rs_11_def
          start_version_def end_version_def version_hash_def)
  have ok1: "\<not> invalid_snapshot_version rs_11 (full_request 11 9)"
    by (simp add: invalid_snapshot_version_def full_request_def rs_11_def
          start_version_def end_version_def version_hash_def)
  have ok2: "\<not> invalid_snapshot_version rs_11 (full_request 10 5)"
    by (simp add: invalid_snapshot_version_def full_request_def rs_11_def
          start_version_def end_version_def version_hash_def)
  have v: "req_version (full_request v h) = v" for v h
    by (simp add: full_request_def)
  have r1: "in_int32 11" and r2: "in_int32 10"
    by (simp_all add: in_int32_def)
  have st: "first_failure (steps_at_version demo_env demo_tablet (full_request 10 5)
                             (header_path_of demo_env demo_tablet demo_world) 10)
              = Some OLAP_SUCCESS"
    by (simp add: steps_at_version_def demo_tablet_def demo_env_def full_request_def
          start_version_def end_version_def rs_0_10_def demo_store_def link_status_def
          append_single_delta_def rs_11_def)
  show ?thesis
    using i m bad1 bad2 ok1 ok2 r1 r2 st demo_timestamp
      explicit_version_check [OF i m, of 11 8 demo_env _ _ _ "''old''" demo_world]
      explicit_version_check [OF i m, of 12 0 demo_env _ _ _ "''old''" demo_world]
      explicit_version_check [OF i m, of 11 9 demo_env]
      explicit_version_check [OF i m, of 10 5 demo_env _ _ _ "''old''" demo_world]
    by (simp add: v)
qed

text \<open>
  Claim C3 as it was stated fails at two inputs. Version 10 with hash 5 passes the check,
  but where \<open>Tablet::create_from_tablet_meta\<close> hands back the null pointer,
  \<open>_append_single_delta\<close> reports \<open>OLAP_ERR_INPUT_PARAMETER_ERROR\<close> and the call
  returns it: the status of the check without the condition of the check. Version
  \<open>10 - 2 ^ 32\<close> with hash 5 passes the check too, and the snapshot version is 10, not
  the requested one; the call then succeeds with the snapshot of version 10.
\<close>

theorem explicit_version_check_counterexample:
  "isset_version (full_request 10 5)
   \<and> rowset_with_max_version demo_tablet = Some rs_11
   \<and> \<not> invalid_snapshot_version rs_11 (full_request 10 5)
   \<and> map_option fst (create_snapshot_files null_tablet_env demo_tablet (full_request 10 5)
         (Some ''old'') demo_world) = Some OLAP_ERR_INPUT_PARAMETER_ERROR
   \<and> isset_version (full_request (- 4294967286) 5)
   \<and> \<not> invalid_snapshot_version rs_11 (full_request (- 4294967286) 5)
   \<and> req_version (full_request (- 4294967286) 5) \<noteq> 10
   \<and> snapshot_version rs_11 (full_request (- 4294967286) 5) = (OLAP_SUCCESS, 10)
   \<and> map_option fst (create_snapshot_files demo_env demo_tablet
         (full_request (- 4294967286) 5) (Some ''old'') demo_world) = Some OLAP_SUCCESS"
proof -
  have ts: "fst (gen_timestamp_string null_tablet_env) = OLAP_SUCCESS"
    by (simp add: null_tablet_env_def demo_env_def)
  have m: "rowset_with_max_version demo_tablet = Some rs_11"
    by (simp add: demo_tablet_def)
  have ok1: "\<not> invalid_snapshot_version rs_11 (full_request 10 5)"
    by (simp add: invalid_snapshot_version_def full_request_def rs_11_def
          start_version_def end_version_def version_hash_def)
  have ok2: "\<not> invalid_snapshot_version rs_11 (full_request (- 4294967286) 5)"
    by (simp add: invalid_snapshot_version_def full_request_def rs_11_def
          start_version_def end_version_def version_hash_def)
  have sv1: "snapshot_version rs_11 (full_request 10 5) = (OLAP_SUCCESS, 10)"
    by (simp add: snapshot_version_def full_request_def rs_11_def
          start_version_def end_version_def version_hash_def to_int32_def)
  have sv2: "snapshot_version rs_11 (full_request (- 4294967286) 5) = (OLAP_SUCCESS, 10)"
    by (simp add: snapshot_version_def full_request_def rs_11_def
          start_version_def end_version_def version_hash_def to_int32_def)
  have c1: "map_option fst (create_snapshot_files null_tablet_env demo_tablet
              (full_request 10 5) (Some ''old'') demo_world)
            = Some OLAP_ERR_INPUT_PARAMETER_ERROR"
    by (simp add: create_snapshot_files_status [OF ts] full_snapshot_steps_unfold [OF m] sv1)
       (simp add: steps_at_version_def demo_tablet_def null_tablet_env_def demo_env_def
          full_request_def start_version_def end_version_def rs_0_10_def demo_store_def
          link_status_def append_single_delta_def)
  have c2: "map_option fst (create_snapshot_files demo_env demo_tablet
              (full_request (- 4294967286) 5) (Some ''old'') demo_world)
            = Some OLAP_SUCCESS"
    by (simp add: create_snapshot_files_status [OF demo_timestamp]
          full_snapshot_steps_unfold [OF m] sv2)
       (simp add: steps_at_version_def demo_tablet_def demo_env_def
          full_request_def start_version_def end_version_def rs_0_10_def demo_store_def
          link_status_def append_single_delta_def rs_11_def)
  show ?thesis
    using m ok1 ok2 sv2 c1 c2 by (simp add: full_request_def)
qed

text \<open>
  Claim C6. Whenever a full snapshot succeeds (the id path having been allocated),
  the tablet has a rowset \<open>l\<close> with the maximum version, the consistent cover was
  captured for \<open>[0, version]\<close> with \<open>version\<close> the snapshot version determined from \<open>l\<close>
  and the request, the header was loaded from the persisted store of the data directory,
  and the header file in the snapshot directory holds that loaded header with its
  rowset-meta list replaced by exactly the rowset metas of the cover, in order. The live
  in-memory header of the tablet plays no part: any other value of it gives the same
  result.
\<close>

theorem full_snapshot_header:
  assumes "fst (gen_timestamp_string e) = OLAP_SUCCESS"
      and "create_snapshot_files e t req (Some old) w = Some (OLAP_SUCCESS, out, w')"
  shows "(\<exists>l cover loaded.
            rowset_with_max_version t = Some l
          \<and> capture_consistent_rowsets t (0, snd (snapshot_version l req))
              = (OLAP_SUCCESS, cover)
          \<and> get_header (data_dir t) (tablet_id t) (schema_hash t) = (OLAP_SUCCESS, loaded)
          \<and> map_of (fs w') (header_path_of e t w)
              = Some (HeaderFile (loaded\<lparr> rs_metas := map rowset_meta cover \<rparr>)))
       \<and> (\<forall>m. create_snapshot_files e (t\<lparr> tablet_meta := m \<rparr>) req (Some old) w
              = create_snapshot_files e t req (Some old) w)"
proof -
  let ?p = "snapshot_id_path_of e t w"
  let ?sp = "get_schema_hash_full_path t ?p"
  let ?hp = "header_path_of e t w"
  let ?w3 = "obtain_header_rdlock
               (w\<lparr> snapshot_base_id := snapshot_base_id w + 1, fs := prepare_dir ?sp (fs w) \<rparr>)"
  obtain hl w4 where
    b: "create_snapshot_body e t req ?sp ?hp ?w3 = Some (OLAP_SUCCESS, hl, w4)"
    and w': "w' = (if hl then release_header_lock w4 else w4)"
    using assms(2)
    by (auto simp: create_snapshot_files_unfold [OF assms(1)] split: option.splits if_splits)
  obtain l where l: "rowset_with_max_version t = Some l"
    using b by (cases "rowset_with_max_version t") (auto simp: create_snapshot_body_def)
  have sv: "fst (snapshot_version l req) = OLAP_SUCCESS"
    using b l by (auto simp: create_snapshot_body_def split_beta split: if_splits)
  then have at: "snapshot_at_version e t req ?sp ?hp (snd (snapshot_version l req)) ?w3
                   = Some (OLAP_SUCCESS, hl, w4)"
    using b l by (simp add: create_snapshot_body_def split_beta)
  let ?cap = "capture_consistent_rowsets t (0, snd (snapshot_version l req))"
  let ?get = "get_header (data_dir t) (tablet_id t) (schema_hash t)"
  note h = snapshot_at_version_header [OF at]
  have cap: "?cap = (OLAP_SUCCESS, snd ?cap)"
    using h by (metis prod.collapse)
  have get: "?get = (OLAP_SUCCESS, snd ?get)"
    using h by (metis prod.collapse)
  have "fs w' = fs w4"
    using w' by (simp add: release_header_lock_def)
  then have hfile: "map_of (fs w') ?hp
                     = Some (HeaderFile ((snd ?get)\<lparr> rs_metas := map rowset_meta (snd ?cap) \<rparr>))"
    using h by (simp add: update_header_file_info_def revise_rs_metas_def)
  have live: "create_snapshot_files e (t\<lparr> tablet_meta := m \<rparr>) req (Some old) w
                = create_snapshot_files e t req (Some old) w" for m
    unfolding create_snapshot_files_unfold [OF assms(1)] snapshot_id_path_of_live
      header_path_of_live schema_path_live create_snapshot_body_live
    by (rule refl)
  show ?thesis
    using l cap get hfile live by blast
qed

text \<open>
  Version 10 of the concrete tablet: the persisted header lists \<open>[0, 10]\<close> and
  \<open>[11, 11]\<close>, the cover is \<open>[0, 10]\<close>, and the saved header lists only \<open>[0, 10]\<close>.
\<close>

theorem full_snapshot_header_witness:
  "fst (gen_timestamp_string demo_env) = OLAP_SUCCESS
   \<and> (\<exists>out w'. create_snapshot_files demo_env demo_tablet (full_request 10 5) (Some ''old'')
                   demo_world = Some (OLAP_SUCCESS, out, w')
        \<and> map_of (fs w') (header_path_of demo_env demo_tablet demo_world)
            = Some (HeaderFile (demo_meta\<lparr> rs_metas := [rowset_meta rs_0_10] \<rparr>)))"
proof -
  let ?call = "create_snapshot_files demo_env demo_tablet (full_request 10 5) (Some ''old'')
                 demo_world"
  have "first_failure (full_snapshot_steps demo_env demo_tablet (full_request 10 5)
                  (header_path_of demo_env demo_tablet demo_world)) = Some OLAP_SUCCESS"
    by (simp add: full_snapshot_steps_def demo_tablet_def demo_env_def
          full_request_def snapshot_version_def start_version_def end_version_def
          version_hash_def rs_11_def rs_0_10_def demo_store_def link_status_def
          append_single_delta_def to_int32_def)
  then have "map_option fst ?call = Some OLAP_SUCCESS"
    by (simp add: create_snapshot_files_status [OF demo_timestamp])
  then obtain out w' where r: "?call = Some (OLAP_SUCCESS, out, w')"
    by (cases ?call) auto
  have sv: "snd (snapshot_version rs_11 (full_request 10 5)) = 10"
    by (simp add: full_request_def snapshot_version_def start_version_def end_version_def
          version_hash_def rs_11_def to_int32_def)
  from full_snapshot_header [OF demo_timestamp r]
  have "map_of (fs w') (header_path_of demo_env demo_tablet demo_world)
          = Some (HeaderFile (demo_meta\<lparr> rs_metas := [rowset_meta rs_0_10] \<rparr>))"
    by (auto simp: demo_tablet_def demo_store_def sv)
  with r demo_timestamp show ?thesis
    by blast
qed

section \<open>Facts about the incremental snapshot\<close>

lemma header_path_differs: "header_path_of e t w \<noteq> snapshot_id_path_of e t w"
proof
  assume "header_path_of e t w = snapshot_id_path_of e t w"
  then have "length (header_path_of e t w) = length (snapshot_id_path_of e t w)"
    by simp
  then show False
    by (simp add: header_path_of_def get_header_full_path_def get_schema_hash_full_path_def)
qed

lemma create_incremental_body_unfold:
  "create_incremental_body e t req sp f =
     (let hres = fst (get_header (data_dir t) (tablet_id t) (schema_hash t));
          loaded = snd (get_header (data_dir t) (tablet_id t) (schema_hash t));
          hp = get_header_full_path t sp;
          f1 = snd (TabletMeta_save e loaded hp f)
      in if hres \<noteq> OLAP_SUCCESS then (hres, f)
         else if save_status e hp \<noteq> OLAP_SUCCESS then (save_status e hp, remove_dir hp f1)
         else link_missing_versions t sp (req_missing_version req) f1)"
  by (simp add: create_incremental_body_def Let_def split_beta save_fst)

lemma create_incremental_body_keeps:
  assumes "check_dir_existed q f" and "q \<noteq> get_header_full_path t sp"
  shows "check_dir_existed q (snd (create_incremental_body e t req sp f))"
proof -
  let ?loaded = "snd (get_header (data_dir t) (tablet_id t) (schema_hash t))"
  let ?hp = "get_header_full_path t sp"
  let ?f1 = "snd (TabletMeta_save e ?loaded ?hp f)"
  have "check_dir_existed q ?f1"
    using assms(1) by (rule save_keeps_existing)
  then obtain x where x: "map_of ?f1 q = Some x"
    by (auto simp: check_dir_existed_def)
  have a: "map_of (remove_dir ?hp ?f1) q = Some x"
    using x assms(2) by (rule remove_dir_keeps)
  have b: "map_of (snd (link_missing_versions t sp (req_missing_version req) ?f1)) q = Some x"
    using x by (rule link_missing_versions_keeps)
  show ?thesis
    using assms(1) a b
    unfolding create_incremental_body_unfold Let_def
    by (simp add: check_dir_existed_def)
qed

lemma create_incremental_body_header:
  assumes "fst (create_incremental_body e t req sp f) = OLAP_SUCCESS"
  shows "fst (get_header (data_dir t) (tablet_id t) (schema_hash t)) = OLAP_SUCCESS
       \<and> map_of (snd (create_incremental_body e t req sp f)) (get_header_full_path t sp)
           = Some (HeaderFile (snd (get_header (data_dir t) (tablet_id t) (schema_hash t))))"
proof -
  let ?loaded = "snd (get_header (data_dir t) (tablet_id t) (schema_hash t))"
  let ?hp = "get_header_full_path t sp"
  let ?f1 = "snd (TabletMeta_save e ?loaded ?hp f)"
  have ok: "fst (get_header (data_dir t) (tablet_id t) (schema_hash t)) = OLAP_SUCCESS
          \<and> save_status e ?hp = OLAP_SUCCESS"
    using assms unfolding create_incremental_body_unfold Let_def
    by (auto split: if_splits)
  then have "TabletMeta_save e ?loaded ?hp f = (OLAP_SUCCESS, ?f1)"
    using save_fst [of e ?loaded ?hp f] by (metis prod.collapse)
  then have "map_of ?f1 ?hp = Some (HeaderFile ?loaded)"
    by (rule save_writes)
  then have "map_of (snd (link_missing_versions t sp (req_missing_version req) ?f1)) ?hp
               = Some (HeaderFile ?loaded)"
    by (rule link_missing_versions_keeps)
  with ok show ?thesis
    unfolding create_incremental_body_unfold Let_def by simp
qed

lemma create_incremental_snapshot_files_unfold:
  assumes "fst (gen_timestamp_string e) = OLAP_SUCCESS"
  shows "create_incremental_snapshot_files e t req (Some old) w =
     (let sp = get_schema_hash_full_path t (snapshot_id_path_of e t w);
          w3 = obtain_header_rdlock
                 (w\<lparr> snapshot_base_id := snapshot_base_id w + 1,
                      fs := prepare_dir sp (fs w) \<rparr>);
          b = create_incremental_body e t req sp (fs w3);
          w5 = release_header_lock (w3\<lparr> fs := snd b \<rparr>)
      in if fst b \<noteq> OLAP_SUCCESS
         then (fst b, Some old, rollback (snapshot_id_path_of e t w) w5)
         else (fst b, Some (canonical e (snapshot_id_path_of e t w)), w5))"
  by (simp add: create_incremental_snapshot_files_def calc_snapshot_id_path_ok [OF assms]
        Let_def split_beta)

lemma create_incremental_snapshot_files_outcome:
  assumes ts: "fst (gen_timestamp_string e) = OLAP_SUCCESS"
      and r: "create_incremental_snapshot_files e t req (Some old) w = (res, out, w')"
  shows "(res \<noteq> OLAP_SUCCESS \<longrightarrow> absent (snapshot_id_path_of e t w) (fs w') \<and> out = Some old)
       \<and> (res = OLAP_SUCCESS \<longrightarrow> out = Some (canonical e (snapshot_id_path_of e t w)))"
proof -
  let ?p = "snapshot_id_path_of e t w"
  let ?sp = "get_schema_hash_full_path t ?p"
  let ?w3 = "obtain_header_rdlock
               (w\<lparr> snapshot_base_id := snapshot_base_id w + 1, fs := prepare_dir ?sp (fs w) \<rparr>)"
  let ?b = "create_incremental_body e t req ?sp (fs ?w3)"
  let ?w5 = "release_header_lock (?w3\<lparr> fs := snd ?b \<rparr>)"
  have "check_dir_existed ?p (fs ?w3)"
    by (simp add: obtain_header_rdlock_def prepare_dir_exists_snapshot_id_path
                  snapshot_id_path_of_nonempty)
  moreover have "?p \<noteq> get_header_full_path t ?sp"
    using header_path_differs [of e t w] by (simp add: header_path_of_def)
  ultimately have "check_dir_existed ?p (snd ?b)"
    by (rule create_incremental_body_keeps)
  then have ex: "check_dir_existed ?p (fs ?w5)"
    by (simp add: release_header_lock_def)
  show ?thesis
    using r rollback_absent [OF ex]
    unfolding create_incremental_snapshot_files_unfold [OF ts] Let_def
    by (auto split: if_splits)
qed

lemma link_missing_versions_stops:
  assumes "\<forall>u \<in> set pre. \<exists>r. get_rowset_by_version t (u, u) = Some r
                                \<and> link_status r = OLAP_SUCCESS"
      and "get_rowset_by_version t (v, v) = None"
  shows "link_missing_versions t d (pre @ v # post) f
           = (OLAP_ERR_VERSION_NOT_EXIST, snd (link_missing_versions t d pre f))"
  using assms
proof (induction pre arbitrary: f)
  case Nil
  then show ?case by simp
next
  case (Cons u pre)
  then obtain r where r: "get_rowset_by_version t (u, u) = Some r"
    and ok: "link_status r = OLAP_SUCCESS"
    by auto
  have "\<forall>u \<in> set pre. \<exists>r. get_rowset_by_version t (u, u) = Some r
                            \<and> link_status r = OLAP_SUCCESS"
    using Cons.prems(1) by simp
  from Cons.IH [OF this Cons.prems(2)] r ok show ?case
    by (simp add: Rowset_make_snapshot_def)
qed

section \<open>Properties of the incremental snapshot and of the empty tablet\<close>

text \<open>
  Claim C5. The missing versions are taken in list order and each version \<open>u\<close> is
  looked up as the rowset with range exactly \<open>[u, u]\<close>. Let \<open>v\<close> be the first missing
  version without such a rowset, the entries before it having been found and linked, the
  header loaded and saved, and the id path allocated. Then the loop stops at \<open>v\<close> with
  \<open>OLAP_ERR_VERSION_NOT_EXIST\<close> in the file system state reached after the entries
  before \<open>v\<close>; the call returns \<open>OLAP_ERR_VERSION_NOT_EXIST\<close>, leaves the output string
  untouched and nothing of the tree at the snapshot id path, files linked for earlier
  versions included; and whatever entries follow \<open>v\<close> in the list, the result is the same.
\<close>

theorem incremental_missing_version:
  assumes "fst (gen_timestamp_string e) = OLAP_SUCCESS"
      and "fst (get_header (data_dir t) (tablet_id t) (schema_hash t)) = OLAP_SUCCESS"
      and "save_status e (header_path_of e t w) = OLAP_SUCCESS"
      and "req_missing_version req = pre @ v # post"
      and "\<forall>u \<in> set pre. \<exists>r. get_rowset_by_version t (u, u) = Some r
                                \<and> link_status r = OLAP_SUCCESS"
      and "get_rowset_by_version t (v, v) = None"
  shows "link_missing_versions t d (req_missing_version req) f
           = (OLAP_ERR_VERSION_NOT_EXIST, snd (link_missing_versions t d pre f))
       \<and> (\<exists>w'. create_incremental_snapshot_files e t req (Some old) w
                  = (OLAP_ERR_VERSION_NOT_EXIST, Some old, w')
              \<and> absent (snapshot_id_path_of e t w) (fs w'))
       \<and> (\<forall>post'. create_incremental_snapshot_files e t
                      (req\<lparr> req_missing_version := pre @ v # post' \<rparr>) (Some old) w
                    = create_incremental_snapshot_files e t req (Some old) w)"
proof -
  note stops = link_missing_versions_stops [OF assms(5) assms(6)]
  have loop: "link_missing_versions t d (req_missing_version req) f
                = (OLAP_ERR_VERSION_NOT_EXIST, snd (link_missing_versions t d pre f))"
    by (simp add: assms(4) stops)
  let ?sp = "get_schema_hash_full_path t (snapshot_id_path_of e t w)"
  have hp: "get_header_full_path t ?sp = header_path_of e t w"
    by (simp add: header_path_of_def)
  have body: "create_incremental_body e t (req\<lparr> req_missing_version := pre @ v # post' \<rparr>) ?sp g
                = (OLAP_ERR_VERSION_NOT_EXIST,
                   snd (link_missing_versions t ?sp pre
                          (snd (TabletMeta_save e
                                  (snd (get_header (data_dir t) (tablet_id t) (schema_hash t)))
                                  (header_path_of e t w) g))))" for post' g
    unfolding create_incremental_body_unfold Let_def hp
    by (simp add: assms(2) assms(3) stops)
  have same: "req\<lparr> req_missing_version := pre @ v # post \<rparr> = req"
    using assms(4) by simp
  have indep: "create_incremental_snapshot_files e t
                 (req\<lparr> req_missing_version := pre @ v # post' \<rparr>) (Some old) w
               = create_incremental_snapshot_files e t req (Some old) w" for post'
    using body [of post'] body [of post]
    unfolding create_incremental_snapshot_files_unfold [OF assms(1)] Let_def same
    by simp
  have st: "fst (create_incremental_snapshot_files e t req (Some old) w)
              = OLAP_ERR_VERSION_NOT_EXIST"
    using body [of post]
    unfolding create_incremental_snapshot_files_unfold [OF assms(1)] Let_def same
    by simp
  obtain out w' where r: "create_incremental_snapshot_files e t req (Some old) w
                            = (OLAP_ERR_VERSION_NOT_EXIST, out, w')"
    using st by (cases "create_incremental_snapshot_files e t req (Some old) w") auto
  from create_incremental_snapshot_files_outcome [OF assms(1) r]
  have "absent (snapshot_id_path_of e t w) (fs w') \<and> out = Some old"
    by simp
  with r loop indep show ?thesis
    by blast
qed

text \<open>
  Missing versions 11, 99 and 0 on the concrete tablet: \<open>[11, 11]\<close> exists and links,
  \<open>[99, 99]\<close> does not exist.
\<close>

theorem incremental_missing_version_witness:
  "fst (gen_timestamp_string demo_env) = OLAP_SUCCESS
   \<and> req_missing_version (incremental_request [11, 99, 0]) = [11] @ 99 # [0]
   \<and> get_rowset_by_version demo_tablet (11, 11) = Some rs_11
   \<and> link_status rs_11 = OLAP_SUCCESS
   \<and> get_rowset_by_version demo_tablet (99, 99) = None
   \<and> (\<exists>w'. create_incremental_snapshot_files demo_env demo_tablet
               (incremental_request [11, 99, 0]) (Some ''old'') demo_world
               = (OLAP_ERR_VERSION_NOT_EXIST, Some ''old'', w')
          \<and> absent ''/data/snapshot/20190801120000.0'' (fs w'))"
proof -
  have h: "fst (get_header (data_dir demo_tablet) (tablet_id demo_tablet)
                  (schema_hash demo_tablet)) = OLAP_SUCCESS"
    by (simp add: demo_tablet_def demo_store_def)
  have s: "save_status demo_env (header_path_of demo_env demo_tablet demo_world) = OLAP_SUCCESS"
    by (simp add: demo_env_def)
  have m: "req_missing_version (incremental_request [11, 99, 0]) = [11] @ 99 # [0]"
    by (simp add: incremental_request_def)
  have g11: "get_rowset_by_version demo_tablet (11, 11) = Some rs_11"
    by (simp add: demo_tablet_def)
  have l11: "link_status rs_11 = OLAP_SUCCESS"
    by (simp add: link_status_def rs_11_def)
  have pre: "\<forall>u \<in> set [11]. \<exists>r. get_rowset_by_version demo_tablet (u, u) = Some r
                                  \<and> link_status r = OLAP_SUCCESS"
    using g11 l11 by simp
  have g99: "get_rowset_by_version demo_tablet (99, 99) = None"
    by (simp add: demo_tablet_def)
  have p: "snapshot_id_path_of demo_env demo_tablet demo_world
             = ''/data/snapshot/20190801120000.0''"
    by (rule demo_snapshot_id_path) (simp add: demo_tablet_def)
  from incremental_missing_version [OF demo_timestamp h s m pre g99, of _ _ "''old''"]
  have "\<exists>w'. create_incremental_snapshot_files demo_env demo_tablet
               (incremental_request [11, 99, 0]) (Some ''old'') demo_world
               = (OLAP_ERR_VERSION_NOT_EXIST, Some ''old'', w')
          \<and> absent ''/data/snapshot/20190801120000.0'' (fs w')"
    unfolding p by blast
  with demo_timestamp m g11 l11 g99 show ?thesis
    by blast
qed

text \<open>
  Claim C7. Whenever an incremental snapshot succeeds (the id path having been
  allocated), the header was loaded from the persisted store of the data directory and
  the header file in the snapshot directory holds exactly this loaded header: no field
  of it, the rowset-meta list included, is changed before it is saved.
\<close>

theorem incremental_header_passthrough:
  assumes "fst (gen_timestamp_string e) = OLAP_SUCCESS"
      and "create_incremental_snapshot_files e t req (Some old) w = (OLAP_SUCCESS, out, w')"
  shows "\<exists>loaded. get_header (data_dir t) (tablet_id t) (schema_hash t) = (OLAP_SUCCESS, loaded)
           \<and> map_of (fs w') (header_path_of e t w) = Some (HeaderFile loaded)"
proof -
  let ?sp = "get_schema_hash_full_path t (snapshot_id_path_of e t w)"
  let ?w3 = "obtain_header_rdlock
               (w\<lparr> snapshot_base_id := snapshot_base_id w + 1, fs := prepare_dir ?sp (fs w) \<rparr>)"
  let ?b = "create_incremental_body e t req ?sp (fs ?w3)"
  let ?get = "get_header (data_dir t) (tablet_id t) (schema_hash t)"
  have ok: "fst ?b = OLAP_SUCCESS" and w': "fs w' = snd ?b"
    using assms(2)
    unfolding create_incremental_snapshot_files_unfold [OF assms(1)] Let_def
    by (auto simp: release_header_lock_def split: if_splits)
  note h = create_incremental_body_header [OF ok]
  have "?get = (OLAP_SUCCESS, snd ?get)"
    using h by (metis prod.collapse)
  moreover have "map_of (fs w') (header_path_of e t w) = Some (HeaderFile (snd ?get))"
    using h w' by (simp add: header_path_of_def)
  ultimately show ?thesis
    by blast
qed

text \<open>
  Missing version 11 on the concrete tablet: the snapshot succeeds and the saved header
  is the persisted header, with both of its rowset metas.
\<close>

theorem incremental_header_passthrough_witness:
  "fst (gen_timestamp_string demo_env) = OLAP_SUCCESS
   \<and> (\<exists>out w'. create_incremental_snapshot_files demo_env demo_tablet
                   (incremental_request [11]) (Some ''old'') demo_world
                   = (OLAP_SUCCESS, out, w')
        \<and> map_of (fs w') (header_path_of demo_env demo_tablet demo_world)
            = Some (HeaderFile demo_meta))"
proof -
  let ?call = "create_incremental_snapshot_files demo_env demo_tablet
                 (incremental_request [11]) (Some ''old'') demo_world"
  have "fst (create_incremental_body demo_env demo_tablet (incremental_request [11]) sp f)
          = OLAP_SUCCESS" for sp f
    unfolding create_incremental_body_unfold Let_def
    by (simp add: demo_tablet_def demo_store_def demo_env_def incremental_request_def
          Rowset_make_snapshot_def link_status_def rs_11_def)
  then have "fst ?call = OLAP_SUCCESS"
    unfolding create_incremental_snapshot_files_unfold [OF demo_timestamp] Let_def
    by simp
  then obtain out w' where r: "?call = (OLAP_SUCCESS, out, w')"
    by (cases ?call) auto
  from incremental_header_passthrough [OF demo_timestamp r]
  have "map_of (fs w') (header_path_of demo_env demo_tablet demo_world)
          = Some (HeaderFile demo_meta)"
    by (auto simp: demo_tablet_def demo_store_def)
  with r demo_timestamp show ?thesis
    by blast
qed

text \<open>
  Claim C9. A full-snapshot request (no missing versions set) for a tablet the tablet
  manager finds and that has no rowset with a maximum version, with the id path
  allocated: \<open>make_snapshot\<close> returns \<open>OLAP_ERR_VERSION_NOT_EXIST\<close>, leaves the output
  string and the request untouched, and nothing is left of the tree at the snapshot id
  path that the call had created.
\<close>

theorem empty_tablet_snapshot:
  assumes "get_tablet e (req_tablet_id req) (req_schema_hash req) = Some t"
      and "rowset_with_max_version t = None"
      and "\<not> isset_missing_version req"
      and "fst (gen_timestamp_string e) = OLAP_SUCCESS"
  shows "\<exists>w'. make_snapshot e req (Some old) w
                = Some (OLAP_ERR_VERSION_NOT_EXIST, Some old, req, w')
            \<and> absent (snapshot_id_path_of e t w) (fs w')"
proof -
  let ?call = "create_snapshot_files e t req (Some old) w"
  have "map_option fst ?call = Some OLAP_ERR_VERSION_NOT_EXIST"
    by (simp add: create_snapshot_files_status [OF assms(4)] full_snapshot_steps_def assms(2))
  then obtain out w' where r: "?call = Some (OLAP_ERR_VERSION_NOT_EXIST, out, w')"
    by (cases ?call) auto
  from create_snapshot_files_outcome [OF assms(4) r]
  have a: "absent (snapshot_id_path_of e t w) (fs w')" and o: "out = Some old"
    by simp_all
  have "make_snapshot e req (Some old) w = Some (OLAP_ERR_VERSION_NOT_EXIST, Some old, req, w')"
    using assms(1) assms(3) r o by (simp add: make_snapshot_def)
  with a show ?thesis
    by blast
qed

theorem empty_tablet_snapshot_witness:
  "get_tablet empty_env (req_tablet_id (full_request 3 0)) (req_schema_hash (full_request 3 0))
     = Some empty_tablet
   \<and> rowset_with_max_version empty_tablet = None
   \<and> \<not> isset_missing_version (full_request 3 0)
   \<and> fst (gen_timestamp_string empty_env) = OLAP_SUCCESS
   \<and> (\<exists>w'. make_snapshot empty_env (full_request 3 0) (Some ''old'') demo_world
               = Some (OLAP_ERR_VERSION_NOT_EXIST, Some ''old'', full_request 3 0, w')
          \<and> absent ''/data/snapshot/20190801120000.0'' (fs w'))"
proof -
  have g: "get_tablet empty_env (req_tablet_id (full_request 3 0))
             (req_schema_hash (full_request 3 0)) = Some empty_tablet"
    by (simp add: empty_env_def)
  have n: "rowset_with_max_version empty_tablet = None"
    by (simp add: empty_tablet_def)
  have i: "\<not> isset_missing_version (full_request 3 0)"
    by (simp add: full_request_def)
  have ts: "fst (gen_timestamp_string empty_env) = OLAP_SUCCESS"
    by (simp add: empty_env_def demo_env_def)
  have p: "snapshot_id_path_of empty_env empty_tablet demo_world
             = ''/data/snapshot/20190801120000.0''"
    by (simp add: snapshot_id_path_of_def empty_env_def demo_env_def empty_tablet_def
          demo_tablet_def demo_world_def SNAPSHOT_PREFIX_def digit_char_def
          string_of_nat.simps)
  from empty_tablet_snapshot [OF g n i ts, of "''old''" demo_world]
  have "\<exists>w'. make_snapshot empty_env (full_request 3 0) (Some ''old'') demo_world
               = Some (OLAP_ERR_VERSION_NOT_EXIST, Some ''old'', full_request 3 0, w')
          \<and> absent ''/data/snapshot/20190801120000.0'' (fs w')"
    unfolding p .
  with g n i ts show ?thesis
    by blast
qed

section \<open>Facts about decimal output and the allocated paths\<close>

lemma digit_char_inj: "d < 10 \<Longrightarrow> d' < 10 \<Longrightarrow> digit_char d = digit_char d' \<Longrightarrow> d = d'"
proof -
  assume a: "d < 10" "d' < 10" "digit_char d = digit_char d'"
  have "distinct ''0123456789''" by simp
  moreover have "d < length ''0123456789''" "d' < length ''0123456789''"
    using a by simp_all
  ultimately show "d = d'"
    using a(3) unfolding digit_char_def by (simp only: nth_eq_iff_index_eq)
qed

lemma digit_char_not_dot: "d < 10 \<Longrightarrow> digit_char d \<noteq> CHR ''.''"
proof -
  assume "d < 10"
  then have "d < length ''0123456789''" by simp
  then have "''0123456789'' ! d \<in> set ''0123456789''" by (rule nth_mem)
  then show ?thesis unfolding digit_char_def by auto
qed

lemma string_of_nat_small: "n < 10 \<Longrightarrow> string_of_nat n = [digit_char n]"
  by (simp add: string_of_nat.simps [of n])

lemma string_of_nat_large:
  "\<not> n < 10 \<Longrightarrow> string_of_nat n = string_of_nat (n div 10) @ [digit_char (n mod 10)]"
  by (simp add: string_of_nat.simps [of n])

lemma string_of_nat_nonempty: "string_of_nat n \<noteq> []"
  by (cases "n < 10") (simp_all add: string_of_nat_small string_of_nat_large)

lemma string_of_nat_no_dot: "CHR ''.'' \<notin> set (string_of_nat n)"
proof (induction n rule: string_of_nat.induct)
  case (1 n)
  show ?case
  proof (cases "n < 10")
    case True
    then show ?thesis
      using digit_char_not_dot [of n] by (simp add: string_of_nat_small)
  next
    case False
    then show ?thesis
      using "1.IH" digit_char_not_dot [of "n mod 10"] by (simp add: string_of_nat_large)
  qed
qed

lemma string_of_nat_inj: "string_of_nat m = string_of_nat n \<Longrightarrow> m = n"
proof (induction m arbitrary: n rule: string_of_nat.induct)
  case (1 m)
  show ?case
  proof (cases "m < 10")
    case m: True
    show ?thesis
    proof (cases "n < 10")
      case True
      then show ?thesis
        using m "1.prems" digit_char_inj by (simp add: string_of_nat_small)
    next
      case False
      then show ?thesis
        using m "1.prems" string_of_nat_nonempty [of "n div 10"]
        by (simp add: string_of_nat_small string_of_nat_large)
    qed
  next
    case m: False
    show ?thesis
    proof (cases "n < 10")
      case True
      then show ?thesis
        using m "1.prems" string_of_nat_nonempty [of "m div 10"]
        by (simp add: string_of_nat_small string_of_nat_large)
    next
      case False
      then have e: "string_of_nat (m div 10) = string_of_nat (n div 10)"
        and d: "digit_char (m mod 10) = digit_char (n mod 10)"
        using m "1.prems" by (simp_all add: string_of_nat_large)
      have "m div 10 = n div 10"
        using "1.IH" [OF m e] .
      moreover have "m mod 10 = n mod 10"
        using d by (intro digit_char_inj) simp_all
      ultimately show ?thesis
        by (metis div_mult_mod_eq)
    qed
  qed
qed

text \<open>The part of a string after its last dot.\<close>

lemma after_last_dot:
  "CHR ''.'' \<notin> set d \<Longrightarrow>
   rev (takeWhile (\<lambda>c. c \<noteq> CHR ''.'') (rev (a @ ''.'' @ d))) = d"
proof -
  assume nd: "CHR ''.'' \<notin> set d"
  have "takeWhile (\<lambda>c. c \<noteq> CHR ''.'') (rev d @ CHR ''.'' # rev a)
          = takeWhile (\<lambda>c. c \<noteq> CHR ''.'') (rev d)"
    by (rule takeWhile_tail) simp
  also have "\<dots> = rev d"
    using nd by (auto simp: takeWhile_eq_all_conv)
  finally show ?thesis
    by simp
qed

lemma dotted_paths_differ:
  assumes "m \<noteq> n"
  shows "a @ ''.'' @ string_of_nat m \<noteq> b @ ''.'' @ string_of_nat n"
proof
  assume "a @ ''.'' @ string_of_nat m = b @ ''.'' @ string_of_nat n"
  then have "rev (takeWhile (\<lambda>c. c \<noteq> CHR ''.'') (rev (a @ ''.'' @ string_of_nat m)))
           = rev (takeWhile (\<lambda>c. c \<noteq> CHR ''.'') (rev (b @ ''.'' @ string_of_nat n)))"
    by simp
  then have "string_of_nat m = string_of_nat n"
    by (simp only: after_last_dot [OF string_of_nat_no_dot])
  with assms show False
    using string_of_nat_inj by blast
qed

lemma calc_snapshot_id_path_cases:
  "calc_snapshot_id_path e t (Some s) w =
     (if fst (gen_timestamp_string e) \<noteq> OLAP_SUCCESS
      then (fst (gen_timestamp_string e), Some s, w)
      else (OLAP_SUCCESS,
            Some ((storage_root_path_name t @ SNAPSHOT_PREFIX @ ''/''
                   @ snd (gen_timestamp_string e)) @ ''.'' @ string_of_nat (snapshot_base_id w)),
            w\<lparr> snapshot_base_id := snapshot_base_id w + 1 \<rparr>))"
  by (cases "gen_timestamp_string e") (simp add: calc_snapshot_id_path_def)

lemma allocate_paths_counter:
  "p \<in> set (allocate_paths calls w) \<Longrightarrow>
   \<exists>a k. p = a @ ''.'' @ string_of_nat k \<and> snapshot_base_id w \<le> k"
proof (induction calls arbitrary: w)
  case Nil
  then show ?case by simp
next
  case (Cons c calls)
  obtain e t where c: "c = (e, t)" by (cases c)
  show ?case
  proof (cases "fst (gen_timestamp_string e) = OLAP_SUCCESS")
    case True
    then have "p = (storage_root_path_name t @ SNAPSHOT_PREFIX @ ''/''
                     @ snd (gen_timestamp_string e)) @ ''.'' @ string_of_nat (snapshot_base_id w)
             \<or> p \<in> set (allocate_paths calls (w\<lparr> snapshot_base_id := snapshot_base_id w + 1 \<rparr>))"
      using Cons.prems c by (simp add: calc_snapshot_id_path_cases)
    then show ?thesis
    proof
      assume "p = (storage_root_path_name t @ SNAPSHOT_PREFIX @ ''/''
                     @ snd (gen_timestamp_string e)) @ ''.'' @ string_of_nat (snapshot_base_id w)"
      then show ?thesis by blast
    next
      assume "p \<in> set (allocate_paths calls (w\<lparr> snapshot_base_id := snapshot_base_id w + 1 \<rparr>))"
      from Cons.IH [OF this] show ?thesis
        by (auto intro: Suc_leD)
    qed
  next
    case False
    then have "p \<in> set (allocate_paths calls w)"
      using Cons.prems c by (simp add: calc_snapshot_id_path_cases)
    from Cons.IH [OF this] show ?thesis .
  qed
qed

lemma allocate_paths_distinct: "distinct (allocate_paths calls w)"
proof (induction calls arbitrary: w)
  case Nil
  then show ?case by simp
next
  case (Cons c calls)
  obtain e t where c: "c = (e, t)" by (cases c)
  show ?case
  proof (cases "fst (gen_timestamp_string e) = OLAP_SUCCESS")
    case True
    let ?a = "storage_root_path_name t @ SNAPSHOT_PREFIX @ ''/'' @ snd (gen_timestamp_string e)"
    let ?w = "w\<lparr> snapshot_base_id := snapshot_base_id w + 1 \<rparr>"
    have "?a @ ''.'' @ string_of_nat (snapshot_base_id w) \<notin> set (allocate_paths calls ?w)"
    proof
      assume "?a @ ''.'' @ string_of_nat (snapshot_base_id w) \<in> set (allocate_paths calls ?w)"
      from allocate_paths_counter [OF this]
      obtain b k where "?a @ ''.'' @ string_of_nat (snapshot_base_id w) = b @ ''.'' @ string_of_nat k"
        and "snapshot_base_id ?w \<le> k"
        by blast
      then show False
        using dotted_paths_differ [of "snapshot_base_id w" k ?a b] by simp
    qed
    then show ?thesis
      using True c Cons.IH [of ?w] by (simp add: calc_snapshot_id_path_cases)
  next
    case False
    then show ?thesis
      using c Cons.IH [of w] by (simp add: calc_snapshot_id_path_cases)
  qed
qed

section \<open>Property of the id allocation\<close>

text \<open>
  Claim C8. Over any sequence of calls to the id/path allocation, whatever the tablets,
  the store roots and the timestamps (equal timestamps included), the paths handed out
  are pairwise distinct; a successful allocation writes the current counter value after
  the last dot of the path and leaves the counter one higher, and a failed one leaves it
  as it was.
\<close>

theorem snapshot_paths_distinct:
  "distinct (allocate_paths calls w)
   \<and> calc_snapshot_id_path e t (Some s) w =
       (if fst (gen_timestamp_string e) \<noteq> OLAP_SUCCESS
        then (fst (gen_timestamp_string e), Some s, w)
        else (OLAP_SUCCESS,
              Some ((storage_root_path_name t @ SNAPSHOT_PREFIX @ ''/''
                     @ snd (gen_timestamp_string e)) @ ''.''
                     @ string_of_nat (snapshot_base_id w)),
              w\<lparr> snapshot_base_id := snapshot_base_id w + 1 \<rparr>))"
  using allocate_paths_distinct calc_snapshot_id_path_cases by blast

section \<open>Behaviour of release\_snapshot and of the single delta\<close>

lemma compare_eq0_prefix:
  "compare_eq0 s 0 (length a) a = Some (prefix a s)"
  by (auto simp: compare_eq0_def prefix_def) (metis append_eq_conv_conj)

lemma compare_eq0_after_prefix:
  "prefix a s \<Longrightarrow> compare_eq0 s (length a) (length b) b = Some (prefix (a @ b) s)"
  by (auto simp: compare_eq0_def prefix_def) (metis append_eq_conv_conj)

text \<open>
  What the loop of \<open>release_snapshot\<close> computes: no exception leaves it; it accepts
  the path exactly when, for some store, the string starts with the canonical root
  followed by \<open>SNAPSHOT_PREFIX\<close>, and then removes the tree at the path as given;
  otherwise the state is returned as it was.
\<close>

lemma release_snapshot_loop_behaviour:
  "release_snapshot_loop e p stores w =
     Some (if \<exists>store \<in> set stores. prefix (canonical e (dd_path store) @ SNAPSHOT_PREFIX) p
           then (OLAP_SUCCESS, w\<lparr> fs := remove_all_dir p (fs w) \<rparr>)
           else (OLAP_ERR_CE_CMD_PARAMS_ERROR, w))"
proof (induction stores)
  case Nil
  then show ?case by simp
next
  case (Cons store stores)
  let ?a = "canonical e (dd_path store)"
  show ?case
  proof (cases "prefix ?a p")
    case True
    show ?thesis
    proof (cases "prefix (?a @ SNAPSHOT_PREFIX) p")
      case hit: True
      then show ?thesis
        using True by (simp add: Let_def compare_eq0_prefix compare_eq0_after_prefix)
    next
      case miss: False
      then show ?thesis
        using True Cons.IH by (simp add: Let_def compare_eq0_prefix compare_eq0_after_prefix)
    qed
  next
    case False
    then have "\<not> prefix (?a @ SNAPSHOT_PREFIX) p"
      using append_prefixD by blast
    then show ?thesis
      using False Cons.IH by (simp add: Let_def compare_eq0_prefix)
  qed
qed

lemma release_snapshot_behaviour:
  "release_snapshot e p w =
     Some (if \<exists>store \<in> set (get_stores e).
                prefix (canonical e (dd_path store) @ SNAPSHOT_PREFIX) p
           then (OLAP_SUCCESS, w\<lparr> fs := remove_all_dir p (fs w) \<rparr>)
           else (OLAP_ERR_CE_CMD_PARAMS_ERROR, w))"
  by (simp add: release_snapshot_def release_snapshot_loop_behaviour)

text \<open>
  Claim C1, at the failing input. The only store is rooted at \<open>/data\<close>, so the snapshot
  subtree is \<open>/data/snapshot\<close>. The path \<open>/data/snapshot_old\<close> is its own canonical form
  and lies outside that subtree, yet \<open>release_snapshot\<close> returns \<open>OLAP_SUCCESS\<close> and
  deletes the directory with the file in it: the test compares the characters after the
  root with \<open>SNAPSHOT_PREFIX\<close> and asks for no separator after them. The claim requires
  the illegal-path error and an untouched file system here.
\<close>

theorem release_snapshot_sibling_directory:
  "get_stores demo_env = [demo_store]
   \<and> canonical demo_env (dd_path demo_store) = ''/data''
   \<and> canonical demo_env ''/data/snapshot_old'' = ''/data/snapshot_old''
   \<and> \<not> under (''/data'' @ SNAPSHOT_PREFIX) ''/data/snapshot_old''
   \<and> map_of (fs release_world) ''/data/snapshot_old/keep.dat'' = Some (LinkedFile ''keep.dat'')
   \<and> release_snapshot demo_env ''/data/snapshot_old'' release_world
       = Some (OLAP_SUCCESS,
               release_world\<lparr> fs := [(''/data'', Dir), (''/data/snapshot'', Dir),
                                     (''/data/snapshot/20190801120000.0'', Dir)] \<rparr>)"
  by (simp add: release_snapshot_def demo_env_def demo_store_def release_world_def
        compare_eq0_def SNAPSHOT_PREFIX_def remove_all_dir_def under_def)

text \<open>
  Claim C4, at the failing input. Version 10 is requested with hash 5; the cover is the
  cumulative rowset \<open>[0, 10]\<close>, which ends at the requested version and does not start
  there, so \<open>_append_single_delta\<close> is called. It returns \<open>OLAP_SUCCESS\<close>, the snapshot
  succeeds, and the header file of the snapshot lists the rowset meta \<open>[0, 10]\<close> alone:
  no entry covering \<open>[11, 11]\<close> was appended. The claim requires that entry.
\<close>

theorem single_delta_not_appended:
  "capture_consistent_rowsets demo_tablet (0, 10) = (OLAP_SUCCESS, [rs_0_10])
   \<and> end_version rs_0_10 = req_version (full_request 10 5)
   \<and> start_version rs_0_10 \<noteq> req_version (full_request 10 5)
   \<and> append_single_delta demo_env (full_request 10 5) (data_dir demo_tablet) = Some OLAP_SUCCESS
   \<and> make_snapshot demo_env (full_request 10 5) (Some []) demo_world
       = Some (OLAP_SUCCESS, Some ''/data/snapshot/20190801120000.0'', full_request 10 5,
           \<lparr> fs = [(''/data'', Dir), (''/data/snapshot'', Dir),
                   (''/data/snapshot/20190801120000.0'', Dir),
                   (''/data/snapshot/20190801120000.0/42'', Dir),
                   (''/data/snapshot/20190801120000.0/42/7'', Dir),
                   (''/data/snapshot/20190801120000.0/42/7/42.hdr'',
                    HeaderFile \<lparr> tm_tablet_id = 42, tm_schema_hash = 7,
                                 rs_metas = [\<lparr> rsm_start_version = 0, rsm_end_version = 10,
                                               rsm_version_hash = 5 \<rparr>] \<rparr>),
                   (''/data/snapshot/20190801120000.0/42/7/a.dat'', LinkedFile ''a.dat''),
                   (''/data/snapshot/20190801120000.0/42/7/a.idx'', LinkedFile ''a.idx'')],
             snapshot_base_id = 1, header_rdlocks = 0 \<rparr>)"
  by code_simp

end
